theory Spec2Isabelle
  imports Main "HOL-Library.Word" "HOL-Library.Sublist"
begin

section \<open>Data model (types.go)\<close>

text \<open>
  Go's \<^verbatim>\<open>int\<close> is a 64-bit two's-complement integer on the platforms the server is
  built for; \<^verbatim>\<open>+\<close> wraps around and \<^verbatim>\<open>==\<close> compares the bit patterns.
\<close>

type_synonym go_int = "64 word"

text \<open>
  The elements of a \<^verbatim>\<open>[]interface{}\<close> are dynamically typed.  Two kinds of values are
  ever stored in \<^verbatim>\<open>Packets\<close>: the elements of the \<^verbatim>\<open>packets\<close> array of a decoded
  message, represented by the JSON value they were decoded from, and the field maps that
  \<^verbatim>\<open>initializeLatestData\<close> builds from the search documents.
\<close>

datatype json =
    JNull
  | JBool bool
  | JInt int
  | JFloat string
  | JString string
  | JArray "json list"
  | JObject "(string \<times> json) list"

datatype any =
    Decoded json
  | PacketData "string \<Rightarrow> string option"

text \<open>\<^verbatim>\<open>type trafficMessage struct\<close>, types.go lines 9 to 14.\<close>

record trafficMessage =
  PacketCount :: go_int
  Timestamp :: go_int
  Packets :: "any list"

text \<open>\<^verbatim>\<open>type latestData struct\<close>, types.go lines 16 to 21.\<close>

record latestData =
  Timestamp :: go_int
  PacketCount :: go_int
  Packets :: "any list"

text \<open>
  The builtin \<^verbatim>\<open>len\<close> returns an \<^verbatim>\<open>int\<close>.  A slice is modelled by a list (a nil
  slice and an empty slice are both \<open>[]\<close>); a Go slice has fewer than \<open>2 ^ 63\<close> elements,
  and on such lists \<open>len\<close> is the exact number of elements (lemma \<open>len_exact\<close> below).
\<close>

definition len :: "'a list \<Rightarrow> go_int" where
  "len xs = of_nat (length xs)"

section \<open>The aggregate snapshot (redis.go)\<close>

text \<open>The value stored by \<^verbatim>\<open>initializeEmptyLatest\<close>, redis.go lines 156 to 160.\<close>

definition empty_latest :: latestData where
  "empty_latest = \<lparr>latestData.Timestamp = 0, PacketCount = 0, Packets = []\<rparr>"

text \<open>
  The update of \<^verbatim>\<open>latest\<close> under \<^verbatim>\<open>latestMu\<close> in \<^verbatim>\<open>startRedisSubscriber\<close>,
  redis.go lines 196 to 211: accumulate on an equal timestamp, replace otherwise.
\<close>

definition update_latest :: "latestData \<Rightarrow> trafficMessage \<Rightarrow> latestData" where
  "update_latest latest payload =
     (if trafficMessage.Timestamp payload = latestData.Timestamp latest
      then latest
             \<lparr>latestData.PacketCount :=
                latestData.PacketCount latest + trafficMessage.PacketCount payload,
              latestData.Packets :=
                latestData.Packets latest @ trafficMessage.Packets payload\<rparr>
      else \<lparr>latestData.Timestamp = trafficMessage.Timestamp payload,
            PacketCount = trafficMessage.PacketCount payload,
            Packets = trafficMessage.Packets payload\<rparr>)"

text \<open>
  The convention relating the two independently maintained fields: the count is what
  \<^verbatim>\<open>len\<close> returns for the slice.
\<close>

definition consistent :: "latestData \<Rightarrow> bool" where
  "consistent S \<longleftrightarrow> latestData.PacketCount S = len (latestData.Packets S)"

definition msg_consistent :: "trafficMessage \<Rightarrow> bool" where
  "msg_consistent M \<longleftrightarrow> trafficMessage.PacketCount M = len (trafficMessage.Packets M)"

section \<open>Configuration and logging (config.go)\<close>

record Config =
  Debug :: bool
  RedisAddr :: string
  RedisDB :: go_int
  ServerPort :: string
  RedisChannel :: string

text \<open>
  The process environment is a function from variable names to values; as
  \<^verbatim>\<open>os.Getenv\<close> does, it gives the empty string for a variable that is not set.
\<close>

definition getEnv :: "(string \<Rightarrow> string) \<Rightarrow> string \<Rightarrow> string \<Rightarrow> string" where
  "getEnv env key defaultValue = (let v = env key in if v \<noteq> [] then v else defaultValue)"

definition initConfig :: "(string \<Rightarrow> string) \<Rightarrow> Config" where
  "initConfig env =
     \<lparr>Debug = (env ''DEBUG'' = ''true'' \<or> env ''DEBUG'' = ''1''),
      RedisAddr = getEnv env ''REDIS_ADDR'' ''ejfat-6.jlab.org:6379'',
      RedisDB = 0,
      ServerPort = getEnv env ''SERVER_PORT'' '':8080'',
      RedisChannel = getEnv env ''REDIS_CHANNEL'' ''traffic_channel''\<rparr>"

text \<open>
  A line of output is recorded as its level and its format string; the rendering of the
  arguments belongs to \<^verbatim>\<open>fmt\<close> and is left out.
\<close>

datatype level = DEBUG | INFO | ERROR

section \<open>The shared state (types.go)\<close>

text \<open>
  A \<^verbatim>\<open>*websocket.Conn\<close> is identified by its allocation number: every successful
  upgrade yields a connection that did not exist before.
\<close>

type_synonym conn = nat

text \<open>The control point of the one \<^verbatim>\<open>startRedisSubscriber\<close> goroutine.\<close>

datatype control = Subscribing | Consuming | Returned

text \<open>
  The globals \<^verbatim>\<open>config\<close>, \<^verbatim>\<open>latest\<close>, \<^verbatim>\<open>clients\<close> and \<^verbatim>\<open>broadcast\<close> (the buffer of
  the channel, oldest payload first), and what the process has done to the outside:
  \<open>stdout\<close> holds the lines printed, \<open>commands\<close> the commands sent to Redis, \<open>writes\<close>
  the calls of \<^verbatim>\<open>WriteMessage\<close> (connection, payload, and whether the call succeeded),
  \<open>conns\<close> the number of connections upgraded so far.  The mutexes are not modelled:
  each critical section is one atomic step.
\<close>

record state =
  config :: Config
  latest :: latestData
  clients :: "conn \<Rightarrow> bool option"
  broadcast :: "string list"
  subscriber :: control
  conns :: nat
  writes :: "(conn \<times> string \<times> bool) list"
  commands :: "string list"
  stdout :: "(level \<times> string) list"

text \<open>Go's builtin \<^verbatim>\<open>delete(m, key)\<close> on a map.\<close>

definition delete :: "('k \<Rightarrow> 'v option) \<Rightarrow> 'k \<Rightarrow> ('k \<Rightarrow> 'v option)" where
  "delete m key = m(key := None)"

text \<open>A command sent to Redis is recorded by its name.\<close>

definition command :: "string \<Rightarrow> state \<Rightarrow> state" where
  "command name st = st\<lparr>commands := commands st @ [name]\<rparr>"

definition debugLog :: "string \<Rightarrow> state \<Rightarrow> state" where
  "debugLog format st =
     (if Debug (config st) then st\<lparr>stdout := stdout st @ [(DEBUG, format)]\<rparr> else st)"

definition infoLog :: "string \<Rightarrow> state \<Rightarrow> state" where
  "infoLog format st = st\<lparr>stdout := stdout st @ [(INFO, format)]\<rparr>"

definition errorLog :: "string \<Rightarrow> state \<Rightarrow> state" where
  "errorLog format st = st\<lparr>stdout := stdout st @ [(ERROR, format)]\<rparr>"

section \<open>Startup reconstruction (redis.go)\<close>

text \<open>
  What the Redis server answers.  An error is a \<open>string\<close>; \<open>None\<close> is Go's \<^verbatim>\<open>nil\<close>
  error.  A row of the aggregation maps a field name to an \<^verbatim>\<open>interface{}\<close> value: a
  missing key and a nil value both read as \<open>NilValue\<close>, as a Go map lookup gives.  The search
  is a function of the timestamp that the query string is built from; a document is its
  field map.
\<close>

datatype iface = NilValue | StringValue string | OtherValue

record Redis =
  FTInfo :: "string option"
  FTCreate :: "string option"
  FTAggregate :: "string + (string \<Rightarrow> iface) list"
  FTSearch :: "go_int \<Rightarrow> string + (string \<Rightarrow> string option) list"

text \<open>A function either returns or panics.\<close>

datatype 'a outcome = Return 'a | Panic

definition initializeEmptyLatest :: "state \<Rightarrow> state" where
  "initializeEmptyLatest st =
     debugLog ''Initialized with empty latest structure'' (st\<lparr>latest := empty_latest\<rparr>)"

text \<open>\<^verbatim>\<open>createIndexIfNotExists\<close>, redis.go lines 12 to 47: the error returned, and the state.\<close>

definition createIndexIfNotExists :: "Redis \<Rightarrow> state \<Rightarrow> string option \<times> state" where
  "createIndexIfNotExists rdb st0 =
     (let st = command ''FT.INFO'' st0
      in case FTInfo rdb of
           None \<Rightarrow> (None, debugLog ''Index 'idx:packets' already exists'' st)
         | Some _ \<Rightarrow>
             (let st = command ''FT.CREATE'' st
              in case FTCreate rdb of
                   Some err \<Rightarrow> (Some err, st)
                 | None \<Rightarrow>
                     (None, infoLog ''Index 'idx:packets' created successfully'' st)))"

text \<open>
  \<^verbatim>\<open>initializeLatestData\<close>, redis.go lines 51 to 151.  \<open>Sscanf\<close> stands for
  \<^verbatim>\<open>fmt.Sscanf(s, "%d", &timestamp)\<close>: the number of items scanned, the error, and the
  value stored.  The type assertion \<^verbatim>\<open>maxTimestampStr.(string)\<close> of line 104 panics on a
  value that is neither nil nor a string.
\<close>

definition initializeLatestData ::
  "(string \<Rightarrow> nat \<times> string option \<times> go_int) \<Rightarrow> Redis \<Rightarrow> state \<Rightarrow> state outcome" where
  "initializeLatestData Sscanf rdb st0 =
     (case createIndexIfNotExists rdb st0 of
        (Some err, st) \<Rightarrow> Return (initializeEmptyLatest (errorLog ''Error creating index: %v'' st))
      | (None, st1) \<Rightarrow>
     (let st = command ''FT.AGGREGATE'' st1
      in case FTAggregate rdb of
        Inl err \<Rightarrow>
          Return (initializeEmptyLatest (debugLog ''Error aggregating max timestamp: %v'' st))
      | Inr [] \<Rightarrow> Return (initializeEmptyLatest (debugLog ''No data found in index'' st))
      | Inr (row # _) \<Rightarrow>
     (case row ''max_timestamp'' of
        NilValue \<Rightarrow> Return (initializeEmptyLatest (debugLog ''Max timestamp is nil'' st))
      | OtherValue \<Rightarrow> Panic
      | StringValue maxTimestampStr \<Rightarrow>
     (case Sscanf maxTimestampStr of (n, err, timestamp) \<Rightarrow>
        if err \<noteq> None \<or> n \<noteq> 1
        then Return (initializeEmptyLatest (errorLog ''Error parsing timestamp '%s': %v'' st))
        else
     (case FTSearch rdb timestamp of
        Inl err \<Rightarrow>
          Return (initializeEmptyLatest
                    (errorLog ''Error searching for packets: %v''
                       (command ''FT.SEARCH'' (debugLog ''Max timestamp: %d'' st))))
      | Inr docs \<Rightarrow>
          Return (infoLog ''Initialized with data: timestamp=%d packet_count=%d packets=%d''
                    ((debugLog ''Found %d packets with timestamp %d''
                        (command ''FT.SEARCH'' (debugLog ''Max timestamp: %d'' st)))
                       \<lparr>latest :=
                          \<lparr>latestData.Timestamp = timestamp,
                           PacketCount = len docs,
                           Packets = map PacketData docs\<rparr>\<rparr>)))))))"

text \<open>The commands that \<^verbatim>\<open>createIndexIfNotExists\<close> sends.\<close>

definition index_commands :: "Redis \<Rightarrow> string list" where
  "index_commands rdb = (if FTInfo rdb = None then [''FT.INFO''] else [''FT.INFO'', ''FT.CREATE''])"

text \<open>
  The outcome of a startup that fell back: the function returned, the snapshot is the
  empty one, the registry, the queue and the subscriber are as before, and the commands
  \<open>cs\<close> were sent.
\<close>

definition falls_back :: "state \<Rightarrow> string list \<Rightarrow> state outcome \<Rightarrow> bool" where
  "falls_back st cs r =
     (case r of
        Panic \<Rightarrow> False
      | Return st' \<Rightarrow>
          latest st' = empty_latest \<and> clients st' = clients st \<and> broadcast st' = broadcast st
          \<and> subscriber st' = subscriber st \<and> commands st' = commands st @ cs)"

section \<open>The fan-out queue (types.go, line 38)\<close>

text \<open>
  \<^verbatim>\<open>broadcast = make(chan string, 100)\<close>.  A send on a buffered channel appends to the
  buffer when there is room and blocks otherwise; a receive takes the oldest element and
  blocks on an empty buffer.  \<open>None\<close> says that the operation blocks: the goroutine does
  not proceed and nothing changes.  The channel is never closed.
\<close>

definition broadcast_cap :: nat where
  "broadcast_cap = 100"

definition chan_send :: "nat \<Rightarrow> 'a list \<Rightarrow> 'a \<Rightarrow> 'a list option" where
  "chan_send cap buf v = (if length buf < cap then Some (buf @ [v]) else None)"

definition chan_recv :: "'a list \<Rightarrow> ('a \<times> 'a list) option" where
  "chan_recv buf = (case buf of [] \<Rightarrow> None | v # rest \<Rightarrow> Some (v, rest))"

section \<open>The ingest loop (redis.go)\<close>

text \<open>
  Lines 169 to 180 of \<^verbatim>\<open>startRedisSubscriber\<close>: the subscription is confirmed, or the
  function logs the error and returns.
\<close>

definition subscribe :: "string option \<Rightarrow> state \<Rightarrow> state" where
  "subscribe err st0 =
     (let st = command ''SUBSCRIBE'' st0
      in case err of
           Some e \<Rightarrow>
             (errorLog ''Error receiving message from Redis: %v'' st)\<lparr>subscriber := Returned\<rparr>
         | None \<Rightarrow> (infoLog ''Subscribed to %s'' st)\<lparr>subscriber := Consuming\<rparr>)"

text \<open>
  One iteration of the loop of lines 183 to 212, for a message with the given payload.
  \<open>Unmarshal\<close> stands for \<^verbatim>\<open>json.Unmarshal\<close> into a fresh \<^verbatim>\<open>trafficMessage\<close>: \<open>None\<close> when
  it returns an error.  The result is \<open>None\<close> when the send on \<^verbatim>\<open>broadcast\<close> blocks.
\<close>

definition consume :: "(string \<Rightarrow> trafficMessage option) \<Rightarrow> string \<Rightarrow> state \<Rightarrow> state option" where
  "consume Unmarshal payload st =
     (case chan_send broadcast_cap (broadcast st) payload of
        None \<Rightarrow> None
      | Some buf \<Rightarrow>
          Some (case Unmarshal payload of
                  None \<Rightarrow> errorLog ''Error decoding traffic payload: %v'' (st\<lparr>broadcast := buf\<rparr>)
                | Some msg \<Rightarrow>
                    (let st1 = debugLog ''Received: packet_count=%d timestamp=%d packets_len=%d''
                                 (st\<lparr>broadcast := buf\<rparr>);
                         st2 = st1\<lparr>latest := update_latest (latest st1) msg\<rparr>
                     in if trafficMessage.Timestamp msg = latestData.Timestamp (latest st1)
                        then debugLog ''Accumulated: total packet_count=%d total_packets=%d'' st2
                        else debugLog ''Replaced: new timestamp=%d packet_count=%d packets=%d'' st2)))"

section \<open>The dispatch loop (websocket.go)\<close>

text \<open>
  The inner loop of \<^verbatim>\<open>handleMessages\<close>, lines 22 to 30.  \<open>order\<close> is the order in which
  \<^verbatim>\<open>range clients\<close> yields the keys, \<open>fails client\<close> says whether \<^verbatim>\<open>WriteMessage\<close>
  returns an error for that client.  A key that is no longer in the map when its turn
  comes is not produced.
\<close>

fun send_each :: "string \<Rightarrow> (conn \<Rightarrow> bool) \<Rightarrow> conn list \<Rightarrow> state \<Rightarrow> state" where
  "send_each msg fails [] st = st"
| "send_each msg fails (client # order) st =
     (if clients st client = None then send_each msg fails order st
      else
        (let st1 = st\<lparr>writes := writes st @ [(client, msg, \<not> fails client)]\<rparr>
         in if fails client
            then send_each msg fails order
                   (debugLog ''Client disconnected: %s''
                      ((debugLog ''Error sending message to WebSocket: %v'' st1)
                         \<lparr>clients := delete (clients st1) client\<rparr>))
            else send_each msg fails order st1))"

text \<open>
  One iteration of the outer loop, lines 19 to 32: \<open>None\<close> when the receive from
  \<^verbatim>\<open>broadcast\<close> blocks.
\<close>

definition handleMessages :: "conn list \<Rightarrow> (conn \<Rightarrow> bool) \<Rightarrow> state \<Rightarrow> state option" where
  "handleMessages order fails st =
     (case chan_recv (broadcast st) of
        None \<Rightarrow> None
      | Some (msg, rest) \<Rightarrow> Some (send_each msg fails order (st\<lparr>broadcast := rest\<rparr>)))"

section \<open>The connection handler (websocket.go)\<close>

text \<open>
  \<^verbatim>\<open>handleWebSocket\<close> up to its read loop, lines 38 to 50: the upgrade fails, or the new
  connection is registered.
\<close>

definition handleWebSocket :: "string option \<Rightarrow> state \<Rightarrow> state" where
  "handleWebSocket err st =
     (case err of
        Some e \<Rightarrow> errorLog ''Error upgrading to WebSocket: %v'' st
      | None \<Rightarrow>
          infoLog ''WebSocket connection established: %s''
            (st\<lparr>conns := Suc (conns st), clients := (clients st)(conns st \<mapsto> True)\<rparr>))"

text \<open>
  One iteration of the read loop of the handler of \<open>conn\<close>, lines 53 to 65:
  \<^verbatim>\<open>ReadMessage\<close> returns an error (\<open>Inl\<close>) and the client is removed, or a message
  (\<open>Inr\<close>) that is only logged.
\<close>

definition readMessage :: "conn \<Rightarrow> string + string \<Rightarrow> state \<Rightarrow> state" where
  "readMessage conn r st =
     (case r of
        Inl err \<Rightarrow>
          (debugLog ''WebSocket connection closed: %s'' st)
            \<lparr>clients := delete (clients st) conn\<rparr>
      | Inr msg \<Rightarrow> debugLog ''Received message from WebSocket client: %s'' st)"

section \<open>The process as a sequence of steps\<close>

text \<open>
  The goroutines interleave.  An event is one step of one of them: the subscriber gets
  the answer to its subscription, gets a message from the pub/sub channel, or finds that
  channel closed; the dispatcher runs one iteration; a connection is upgraded; a handler
  reads from its connection.  A step that blocks, and a step of a function that has
  returned, leave the state as it is.  One iteration of the ingest loop is one step: the
  send on \<^verbatim>\<open>broadcast\<close> and the update of \<^verbatim>\<open>latest\<close> touch nothing that another
  goroutine writes.
\<close>

datatype event =
    Receive "string option"
  | Message string
  | ChannelClosed
  | Dispatch "conn list" "conn \<Rightarrow> bool"
  | Upgrade "string option"
  | ReadMessage conn "string + string"

fun exec :: "(string \<Rightarrow> trafficMessage option) \<Rightarrow> event \<Rightarrow> state \<Rightarrow> state" where
  "exec Unmarshal (Receive err) st =
     (if subscriber st = Subscribing then subscribe err st else st)"
| "exec Unmarshal (Message payload) st =
     (if subscriber st = Consuming
      then (case consume Unmarshal payload st of None \<Rightarrow> st | Some st' \<Rightarrow> st')
      else st)"
| "exec Unmarshal ChannelClosed st =
     (if subscriber st = Consuming then st\<lparr>subscriber := Returned\<rparr> else st)"
| "exec Unmarshal (Dispatch order fails) st =
     (case handleMessages order fails st of None \<Rightarrow> st | Some st' \<Rightarrow> st')"
| "exec Unmarshal (Upgrade err) st = handleWebSocket err st"
| "exec Unmarshal (ReadMessage conn r) st = readMessage conn r st"

fun run :: "(string \<Rightarrow> trafficMessage option) \<Rightarrow> event list \<Rightarrow> state \<Rightarrow> state" where
  "run Unmarshal [] st = st"
| "run Unmarshal (ev # evs) st = run Unmarshal evs (exec Unmarshal ev st)"

text \<open>
  The state in which \<^verbatim>\<open>main\<close> starts, after \<^verbatim>\<open>initConfig\<close>: the globals hold their
  initial values, no goroutine has taken a step.
\<close>

definition start :: "(string \<Rightarrow> string) \<Rightarrow> state" where
  "start env =
     \<lparr>config = initConfig env, latest = empty_latest, clients = Map.empty, broadcast = [],
      subscriber = Subscribing, conns = 0, writes = [], commands = [], stdout = []\<rparr>"

section \<open>Decoding a message (types.go, lines 9 to 14)\<close>

text \<open>
  The ingest loop calls \<^verbatim>\<open>json.Unmarshal\<close> on the payload.  Its code is Go's standard
  library and is not under src/; the steps above take it as a parameter.  The definitions
  of this section describe it for the struct \<^verbatim>\<open>trafficMessage\<close> and its tags, on JSON
  values that have been scanned already.
\<close>

datatype field = PacketCount_field | Timestamp_field | Packets_field

text \<open>
  Modelled from the spec: the selection of a struct field by a key in \<^verbatim>\<open>json.Unmarshal\<close>
  (encoding/json, not under src/).  A message has the members \<^verbatim>\<open>timestamp\<close>,
  \<^verbatim>\<open>packet_count\<close> and \<^verbatim>\<open>packets\<close>; a key selects the field whose tag it equals, or
  else the field whose tag it equals after case folding (\<open>foldName\<close>, a parameter), and a
  key that selects no field is skipped.
\<close>

definition find_field :: "(string \<Rightarrow> string) \<Rightarrow> string \<Rightarrow> field option" where
  "find_field foldName key =
     (if key = ''packet_count'' then Some PacketCount_field
      else if key = ''timestamp'' then Some Timestamp_field
      else if key = ''packets'' then Some Packets_field
      else if foldName key = foldName ''packet_count'' then Some PacketCount_field
      else if foldName key = foldName ''timestamp'' then Some Timestamp_field
      else if foldName key = foldName ''packets'' then Some Packets_field
      else None)"

text \<open>
  Modelled from the spec: the decoding of a value into an \<^verbatim>\<open>int\<close> field by
  \<^verbatim>\<open>json.Unmarshal\<close> (encoding/json, not under src/).  The timestamp and the count are
  integers: a number written as an integer within the range of \<^verbatim>\<open>int\<close> is stored,
  \<^verbatim>\<open>null\<close> leaves the field as it is, any other value is an error (\<open>None\<close>).
\<close>

definition set_int :: "json \<Rightarrow> go_int \<Rightarrow> go_int option" where
  "set_int v old =
     (case v of
        JNull \<Rightarrow> Some old
      | JInt i \<Rightarrow> if - (2 ^ 63) \<le> i \<and> i < 2 ^ 63 then Some (word_of_int i) else None
      | _ \<Rightarrow> None)"

text \<open>
  Modelled from the spec: the decoding of a value into the \<^verbatim>\<open>[]interface{}\<close> field by
  \<^verbatim>\<open>json.Unmarshal\<close> (encoding/json, not under src/).  The packets are an array of
  arbitrary values, each stored as it is; \<^verbatim>\<open>null\<close> gives the nil slice, any other value
  is an error.
\<close>

definition set_slice :: "json \<Rightarrow> any list option" where
  "set_slice v =
     (case v of
        JNull \<Rightarrow> Some []
      | JArray items \<Rightarrow> Some (map Decoded items)
      | _ \<Rightarrow> None)"

text \<open>
  Modelled from the spec: the assignment of one member to its field by
  \<^verbatim>\<open>json.Unmarshal\<close> (encoding/json, not under src/).
\<close>

definition set_field :: "field \<Rightarrow> json \<Rightarrow> trafficMessage \<Rightarrow> trafficMessage option" where
  "set_field f v payload =
     (case f of
        PacketCount_field \<Rightarrow>
          map_option (\<lambda>n. payload\<lparr>trafficMessage.PacketCount := n\<rparr>)
            (set_int v (trafficMessage.PacketCount payload))
      | Timestamp_field \<Rightarrow>
          map_option (\<lambda>n. payload\<lparr>trafficMessage.Timestamp := n\<rparr>)
            (set_int v (trafficMessage.Timestamp payload))
      | Packets_field \<Rightarrow>
          map_option (\<lambda>xs. payload\<lparr>trafficMessage.Packets := xs\<rparr>) (set_slice v))"

text \<open>
  Modelled from the spec: the decoding of the members of an object by \<^verbatim>\<open>json.Unmarshal\<close>
  (encoding/json, not under src/), in the order in which they are written.  A field
  whose key does not occur keeps the value it had: absent fields default to 0 or empty.
  A later occurrence of a key overrides an earlier one.  The first error makes the whole
  call fail.
\<close>

fun object :: "(string \<Rightarrow> string) \<Rightarrow> (string \<times> json) list \<Rightarrow> trafficMessage \<Rightarrow> trafficMessage option" where
  "object foldName [] payload = Some payload"
| "object foldName ((key, v) # members) payload =
     (case find_field foldName key of
        None \<Rightarrow> object foldName members payload
      | Some f \<Rightarrow>
          (case set_field f v payload of
             None \<Rightarrow> None
           | Some payload' \<Rightarrow> object foldName members payload'))"

text \<open>The value of \<^verbatim>\<open>var payload trafficMessage\<close>, redis.go line 188.\<close>

definition zero_message :: trafficMessage where
  "zero_message = \<lparr>trafficMessage.PacketCount = 0, Timestamp = 0, Packets = []\<rparr>"

text \<open>
  Modelled from the spec: \<^verbatim>\<open>json.Unmarshal\<close> of a scanned value into a fresh
  \<^verbatim>\<open>trafficMessage\<close> (encoding/json, not under src/).  An object is decoded member by
  member, \<^verbatim>\<open>null\<close> leaves the zero message, any other value is an error.
\<close>

definition unmarshal :: "(string \<Rightarrow> string) \<Rightarrow> json \<Rightarrow> trafficMessage option" where
  "unmarshal foldName v =
     (case v of
        JObject members \<Rightarrow> object foldName members zero_message
      | JNull \<Rightarrow> Some zero_message
      | _ \<Rightarrow> None)"

text \<open>
  Modelled from the spec: \<^verbatim>\<open>json.Unmarshal\<close> of a payload (encoding/json, not under
  src/).  The scanning of the text into a JSON value is the parameter \<open>scan\<close>, which gives
  \<open>None\<close> on a syntax error.
\<close>

definition json_Unmarshal ::
  "(string \<Rightarrow> json option) \<Rightarrow> (string \<Rightarrow> string) \<Rightarrow> string \<Rightarrow> trafficMessage option" where
  "json_Unmarshal scan foldName data =
     (case scan data of None \<Rightarrow> None | Some v \<Rightarrow> unmarshal foldName v)"

section \<open>Example inputs\<close>

text \<open>
  A scanner that reads one decimal timestamp, a row of the aggregation with a given
  maximum timestamp, and two documents of the index.
\<close>

definition example_Sscanf :: "string \<Rightarrow> nat \<times> string option \<times> go_int" where
  "example_Sscanf s =
     (if s = ''1700000000'' then (1, None, 1700000000) else (0, Some ''expected integer'', 0))"

definition example_row :: "iface \<Rightarrow> string \<Rightarrow> iface" where
  "example_row v = (\<lambda>k. if k = ''max_timestamp'' then v else NilValue)"

definition example_docs :: "(string \<Rightarrow> string option) list" where
  "example_docs =
     [[''timestamp'' \<mapsto> ''1700000000'', ''total_bytes'' \<mapsto> ''64''],
      [''timestamp'' \<mapsto> ''1700000000'', ''total_bytes'' \<mapsto> ''512'']]"

text \<open>A scanner that knows one payload: an object with a timestamp and a count only.\<close>

definition example_scan :: "string \<Rightarrow> json option" where
  "example_scan data =
     (if data = ''{\"timestamp\":5,\"packet_count\":3}''
      then Some (JObject [(''timestamp'', JInt 5), (''packet_count'', JInt 3)])
      else None)"

text \<open>
  What \<^verbatim>\<open>fmt.Sscanf(s, "%d", &timestamp)\<close> answers on the strings of the examples: the verb reads the
  leading integer and leaves the rest of the input unread, so \<^verbatim>\<open>"17abc"\<close> scans as one
  item, without error, with the value 17; only a string with no leading integer is an
  error.
\<close>

definition observed_Sscanf :: "string \<Rightarrow> nat \<times> string option \<times> go_int" where
  "observed_Sscanf s =
     (if s = ''17abc'' then (1, None, 17)
      else if s = ''5'' then (1, None, 5)
      else if s = ''9'' then (1, None, 9)
      else (0, Some ''expected integer'', 0))"

section \<open>Properties of the snapshot update\<close>

lemma len_append: "len (xs @ ys) = len xs + len ys"
  by (simp add: len_def)

lemma len_exact:
  assumes "length xs < 2 ^ 63"
  shows "sint (len xs) = int (length xs)"
proof -
  have "int (length xs) < int (2 ^ 63)"
    using assms by (rule iffD2 [OF of_nat_less_iff])
  then have "int (length xs) < 2 ^ 63"
    by (simp only: of_nat_power of_nat_numeral)
  then have "signed_take_bit 63 (int (length xs)) = int (length xs)"
    by (intro signed_take_bit_int_eq_self) simp_all
  then show ?thesis
    by (simp add: len_def signed_of_nat)
qed

lemma consistent_exact:
  assumes "length (latestData.Packets S) < 2 ^ 63"
  shows "consistent S \<longleftrightarrow>
    sint (latestData.PacketCount S) = int (length (latestData.Packets S))"
proof
  assume "consistent S"
  then show "sint (latestData.PacketCount S) = int (length (latestData.Packets S))"
    using len_exact [OF assms] by (simp add: consistent_def)
next
  assume "sint (latestData.PacketCount S) = int (length (latestData.Packets S))"
  then have "word_of_int (sint (latestData.PacketCount S)) =
      (word_of_int (int (length (latestData.Packets S))) :: 64 word)"
    by simp
  then show "consistent S"
    by (simp add: consistent_def len_def)
qed

lemma update_latest_same:
  "trafficMessage.Timestamp M = latestData.Timestamp S \<Longrightarrow>
   update_latest S M =
     \<lparr>latestData.Timestamp = latestData.Timestamp S,
      PacketCount = latestData.PacketCount S + trafficMessage.PacketCount M,
      Packets = latestData.Packets S @ trafficMessage.Packets M\<rparr>"
  by (simp add: update_latest_def)

lemma update_latest_other:
  "trafficMessage.Timestamp M \<noteq> latestData.Timestamp S \<Longrightarrow>
   update_latest S M =
     \<lparr>latestData.Timestamp = trafficMessage.Timestamp M,
      PacketCount = trafficMessage.PacketCount M,
      Packets = trafficMessage.Packets M\<rparr>"
  by (simp add: update_latest_def)

lemma update_latest_empty:
  "update_latest empty_latest M =
     \<lparr>latestData.Timestamp = trafficMessage.Timestamp M,
      PacketCount = trafficMessage.PacketCount M,
      Packets = trafficMessage.Packets M\<rparr>"
  by (simp add: update_latest_def empty_latest_def)

text \<open>
  C1. Accumulate law.  When the incoming message carries the timestamp of the current
  snapshot, the update keeps the timestamp, adds the message's count to the snapshot's
  count (Go's \<^verbatim>\<open>int\<close> addition) and appends the message's events after the snapshot's
  events.  Hence two messages with equal timestamps, merged in turn into the empty
  snapshot, give the sum of their counts and the concatenation of their events.
\<close>

theorem accumulate_law:
  "(trafficMessage.Timestamp M = latestData.Timestamp S \<longrightarrow>
      latestData.Timestamp (update_latest S M) = latestData.Timestamp S
    \<and> latestData.PacketCount (update_latest S M) =
        latestData.PacketCount S + trafficMessage.PacketCount M
    \<and> latestData.Packets (update_latest S M) =
        latestData.Packets S @ trafficMessage.Packets M)
 \<and> (trafficMessage.Timestamp M2 = trafficMessage.Timestamp M1 \<longrightarrow>
      latestData.Timestamp (update_latest (update_latest empty_latest M1) M2) =
        trafficMessage.Timestamp M1
    \<and> latestData.PacketCount (update_latest (update_latest empty_latest M1) M2) =
        trafficMessage.PacketCount M1 + trafficMessage.PacketCount M2
    \<and> latestData.Packets (update_latest (update_latest empty_latest M1) M2) =
        trafficMessage.Packets M1 @ trafficMessage.Packets M2)"
  by (simp add: update_latest_empty update_latest_same)

theorem accumulate_law_witness:
  "trafficMessage.Timestamp
     \<lparr>trafficMessage.PacketCount = 2, Timestamp = 5,
      Packets = [Decoded (JString ''e4''), Decoded (JString ''e5'')]\<rparr> =
   latestData.Timestamp
     \<lparr>latestData.Timestamp = 5, PacketCount = 3,
      Packets = [Decoded (JString ''e1''), Decoded (JString ''e2''), Decoded (JString ''e3'')]\<rparr>
 \<and> update_latest
     \<lparr>latestData.Timestamp = 5, PacketCount = 3,
      Packets = [Decoded (JString ''e1''), Decoded (JString ''e2''), Decoded (JString ''e3'')]\<rparr>
     \<lparr>trafficMessage.PacketCount = 2, Timestamp = 5,
      Packets = [Decoded (JString ''e4''), Decoded (JString ''e5'')]\<rparr> =
   \<lparr>latestData.Timestamp = 5, PacketCount = 5,
    Packets = [Decoded (JString ''e1''), Decoded (JString ''e2''), Decoded (JString ''e3''),
               Decoded (JString ''e4''), Decoded (JString ''e5'')]\<rparr>
 \<and> update_latest
     (update_latest empty_latest
        \<lparr>trafficMessage.PacketCount = 3, Timestamp = 5,
         Packets = [Decoded (JString ''e1''), Decoded (JString ''e2''), Decoded (JString ''e3'')]\<rparr>)
     \<lparr>trafficMessage.PacketCount = 2, Timestamp = 5,
      Packets = [Decoded (JString ''e4''), Decoded (JString ''e5'')]\<rparr> =
   \<lparr>latestData.Timestamp = 5, PacketCount = 5,
    Packets = [Decoded (JString ''e1''), Decoded (JString ''e2''), Decoded (JString ''e3''),
               Decoded (JString ''e4''), Decoded (JString ''e5'')]\<rparr>"
  using accumulate_law
    [of "\<lparr>trafficMessage.PacketCount = 2, Timestamp = 5,
          Packets = [Decoded (JString ''e4''), Decoded (JString ''e5'')]\<rparr>"
        "\<lparr>latestData.Timestamp = 5, PacketCount = 3,
          Packets = [Decoded (JString ''e1''), Decoded (JString ''e2''),
                     Decoded (JString ''e3'')]\<rparr>"
        "\<lparr>trafficMessage.PacketCount = 2, Timestamp = 5,
          Packets = [Decoded (JString ''e4''), Decoded (JString ''e5'')]\<rparr>"
        "\<lparr>trafficMessage.PacketCount = 3, Timestamp = 5,
          Packets = [Decoded (JString ''e1''), Decoded (JString ''e2''),
                     Decoded (JString ''e3'')]\<rparr>"]
  by (simp add: latestData.equality)

lemma update_latest_Timestamp [simp]:
  "latestData.Timestamp (update_latest S M) = trafficMessage.Timestamp M"
  by (simp add: update_latest_def)

text \<open>
  C2. Replace law.  When the incoming message carries a timestamp different from the
  snapshot's, whether larger or smaller, the update overwrites the snapshot with the
  message's timestamp, count and events.  Hence merging a message and then a second one
  with a different timestamp gives, from any snapshot, what merging the second one alone
  into the empty snapshot gives: the fields of the second message.
\<close>

theorem replace_law:
  "(trafficMessage.Timestamp M \<noteq> latestData.Timestamp S \<longrightarrow>
      update_latest S M =
        \<lparr>latestData.Timestamp = trafficMessage.Timestamp M,
         PacketCount = trafficMessage.PacketCount M,
         Packets = trafficMessage.Packets M\<rparr>)
 \<and> (trafficMessage.Timestamp M2 \<noteq> trafficMessage.Timestamp M1 \<longrightarrow>
      update_latest (update_latest S M1) M2 = update_latest empty_latest M2
    \<and> update_latest (update_latest S M1) M2 =
        \<lparr>latestData.Timestamp = trafficMessage.Timestamp M2,
         PacketCount = trafficMessage.PacketCount M2,
         Packets = trafficMessage.Packets M2\<rparr>)"
  by (simp add: update_latest_empty update_latest_other)

theorem replace_law_witness:
  "trafficMessage.Timestamp
     \<lparr>trafficMessage.PacketCount = 1, Timestamp = 1, Packets = [Decoded (JString ''e9'')]\<rparr> \<noteq>
   trafficMessage.Timestamp
     \<lparr>trafficMessage.PacketCount = 3, Timestamp = 5,
      Packets = [Decoded (JString ''e1''), Decoded (JString ''e2''), Decoded (JString ''e3'')]\<rparr>
 \<and> sint (trafficMessage.Timestamp
       \<lparr>trafficMessage.PacketCount = 1, Timestamp = 1, Packets = [Decoded (JString ''e9'')]\<rparr>) <
   sint (latestData.Timestamp
       (update_latest empty_latest
          \<lparr>trafficMessage.PacketCount = 3, Timestamp = 5,
           Packets = [Decoded (JString ''e1''), Decoded (JString ''e2''),
                      Decoded (JString ''e3'')]\<rparr>))
 \<and> update_latest
     (update_latest empty_latest
        \<lparr>trafficMessage.PacketCount = 3, Timestamp = 5,
         Packets = [Decoded (JString ''e1''), Decoded (JString ''e2''), Decoded (JString ''e3'')]\<rparr>)
     \<lparr>trafficMessage.PacketCount = 1, Timestamp = 1, Packets = [Decoded (JString ''e9'')]\<rparr> =
   \<lparr>latestData.Timestamp = 1, PacketCount = 1, Packets = [Decoded (JString ''e9'')]\<rparr>"
  using replace_law
    [where M = "\<lparr>trafficMessage.PacketCount = 1, Timestamp = 1,
                 Packets = [Decoded (JString ''e9'')]\<rparr>"
       and S = empty_latest
       and ?M2.0 = "\<lparr>trafficMessage.PacketCount = 1, Timestamp = 1,
                     Packets = [Decoded (JString ''e9'')]\<rparr>"
       and ?M1.0 = "\<lparr>trafficMessage.PacketCount = 3, Timestamp = 5,
                     Packets = [Decoded (JString ''e1''), Decoded (JString ''e2''),
                                Decoded (JString ''e3'')]\<rparr>"]
  by (simp add: update_latest_empty)

text \<open>
  C3. Count and length stay consistent.  If the snapshot's count is the length of its
  events and the message's count is the length of its events, then after the update, by
  either branch, the snapshot's count is again the length of its events: as Go compares
  them, and as numbers whenever the events are few enough to form a slice.  The empty
  snapshot of startup has count 0 and no events.
\<close>

theorem consistency_preserved:
  "(consistent S \<and> msg_consistent M \<longrightarrow> consistent (update_latest S M))
 \<and> (consistent S \<and> msg_consistent M
      \<and> length (latestData.Packets (update_latest S M)) < 2 ^ 63 \<longrightarrow>
      sint (latestData.PacketCount (update_latest S M)) =
        int (length (latestData.Packets (update_latest S M))))
 \<and> consistent empty_latest
 \<and> empty_latest = \<lparr>latestData.Timestamp = 0, PacketCount = 0, Packets = []\<rparr>"
proof -
  have kept: "consistent (update_latest S M)" if "consistent S \<and> msg_consistent M"
    using that by (simp add: consistent_def msg_consistent_def update_latest_def len_append)
  have exact: "sint (latestData.PacketCount (update_latest S M)) =
        int (length (latestData.Packets (update_latest S M)))"
    if "consistent S \<and> msg_consistent M
      \<and> length (latestData.Packets (update_latest S M)) < 2 ^ 63"
    using that kept consistent_exact [of "update_latest S M"] by blast
  have "consistent empty_latest"
    by (simp add: consistent_def empty_latest_def len_def)
  with kept exact show ?thesis
    by (simp add: empty_latest_def)
qed

theorem consistency_preserved_witness:
  "consistent
     \<lparr>latestData.Timestamp = 5, PacketCount = 1, Packets = [Decoded (JString ''e1'')]\<rparr>
 \<and> msg_consistent
     \<lparr>trafficMessage.PacketCount = 2, Timestamp = 5,
      Packets = [Decoded (JString ''e4''), Decoded (JString ''e5'')]\<rparr>
 \<and> msg_consistent
     \<lparr>trafficMessage.PacketCount = 1, Timestamp = 1, Packets = [Decoded (JString ''e9'')]\<rparr>
 \<and> consistent
     (update_latest
        \<lparr>latestData.Timestamp = 5, PacketCount = 1, Packets = [Decoded (JString ''e1'')]\<rparr>
        \<lparr>trafficMessage.PacketCount = 2, Timestamp = 5,
         Packets = [Decoded (JString ''e4''), Decoded (JString ''e5'')]\<rparr>)
 \<and> sint (latestData.PacketCount
     (update_latest
        \<lparr>latestData.Timestamp = 5, PacketCount = 1, Packets = [Decoded (JString ''e1'')]\<rparr>
        \<lparr>trafficMessage.PacketCount = 2, Timestamp = 5,
         Packets = [Decoded (JString ''e4''), Decoded (JString ''e5'')]\<rparr>)) = 3
 \<and> consistent
     (update_latest
        \<lparr>latestData.Timestamp = 5, PacketCount = 1, Packets = [Decoded (JString ''e1'')]\<rparr>
        \<lparr>trafficMessage.PacketCount = 1, Timestamp = 1, Packets = [Decoded (JString ''e9'')]\<rparr>)"
proof -
  let ?S = "\<lparr>latestData.Timestamp = 5, PacketCount = 1, Packets = [Decoded (JString ''e1'')]\<rparr>"
  let ?M = "\<lparr>trafficMessage.PacketCount = 2, Timestamp = 5,
            Packets = [Decoded (JString ''e4''), Decoded (JString ''e5'')]\<rparr>"
  let ?N = "\<lparr>trafficMessage.PacketCount = 1, Timestamp = 1,
            Packets = [Decoded (JString ''e9'')]\<rparr>"
  have s: "consistent ?S" and m: "msg_consistent ?M" and n: "msg_consistent ?N"
    by (simp_all add: consistent_def msg_consistent_def len_def)
  have short: "length (latestData.Packets (update_latest ?S ?M)) < 2 ^ 63"
    by (simp add: update_latest_def)
  have c4: "consistent (update_latest ?S ?M)"
    by (rule consistency_preserved [of ?S ?M, THEN conjunct1, THEN mp, OF conjI [OF s m]])
  have "sint (latestData.PacketCount (update_latest ?S ?M)) =
      int (length (latestData.Packets (update_latest ?S ?M)))"
    by (rule consistency_preserved [of ?S ?M, THEN conjunct2, THEN conjunct1, THEN mp,
          OF conjI [OF s conjI [OF m short]]])
  then have c5: "sint (latestData.PacketCount (update_latest ?S ?M)) = 3"
    by (simp add: update_latest_def)
  have c6: "consistent (update_latest ?S ?N)"
    by (rule consistency_preserved [of ?S ?N, THEN conjunct1, THEN mp, OF conjI [OF s n]])
  from s m n c4 c5 c6 show ?thesis
    by (intro conjI)
qed

section \<open>Properties of the steps\<close>

lemma command_fields [simp]:
  "config (command c st) = config st"
  "latest (command c st) = latest st"
  "clients (command c st) = clients st"
  "broadcast (command c st) = broadcast st"
  "subscriber (command c st) = subscriber st"
  "conns (command c st) = conns st"
  "writes (command c st) = writes st"
  "stdout (command c st) = stdout st"
  "commands (command c st) = commands st @ [c]"
  by (simp_all add: command_def)

lemma debugLog_fields [simp]:
  "config (debugLog f st) = config st"
  "latest (debugLog f st) = latest st"
  "clients (debugLog f st) = clients st"
  "broadcast (debugLog f st) = broadcast st"
  "subscriber (debugLog f st) = subscriber st"
  "conns (debugLog f st) = conns st"
  "writes (debugLog f st) = writes st"
  "commands (debugLog f st) = commands st"
  by (simp_all add: debugLog_def)

lemma infoLog_fields [simp]:
  "config (infoLog f st) = config st"
  "latest (infoLog f st) = latest st"
  "clients (infoLog f st) = clients st"
  "broadcast (infoLog f st) = broadcast st"
  "subscriber (infoLog f st) = subscriber st"
  "conns (infoLog f st) = conns st"
  "writes (infoLog f st) = writes st"
  "commands (infoLog f st) = commands st"
  "stdout (infoLog f st) = stdout st @ [(INFO, f)]"
  by (simp_all add: infoLog_def)

lemma errorLog_fields [simp]:
  "config (errorLog f st) = config st"
  "latest (errorLog f st) = latest st"
  "clients (errorLog f st) = clients st"
  "broadcast (errorLog f st) = broadcast st"
  "subscriber (errorLog f st) = subscriber st"
  "conns (errorLog f st) = conns st"
  "writes (errorLog f st) = writes st"
  "commands (errorLog f st) = commands st"
  "stdout (errorLog f st) = stdout st @ [(ERROR, f)]"
  by (simp_all add: errorLog_def)

lemma send_each_frame [simp]:
  "config (send_each msg fails order st) = config st"
  "latest (send_each msg fails order st) = latest st"
  "broadcast (send_each msg fails order st) = broadcast st"
  "subscriber (send_each msg fails order st) = subscriber st"
  "conns (send_each msg fails order st) = conns st"
  "commands (send_each msg fails order st) = commands st"
  by (induction order arbitrary: st; simp add: Let_def)+

lemma send_each_enum:
  "distinct order \<Longrightarrow> \<forall>c \<in> set order. clients st c \<noteq> None \<Longrightarrow>
   writes (send_each msg fails order st) =
     writes st @ map (\<lambda>c. (c, msg, \<not> fails c)) order
 \<and> clients (send_each msg fails order st) =
     (\<lambda>c. if c \<in> set order \<and> fails c then None else clients st c)"
proof (induction order arbitrary: st)
  case Nil
  then show ?case by simp
next
  case (Cons a order)
  from Cons.prems have a: "clients st a \<noteq> None" "a \<notin> set order" "distinct order"
    and rest: "\<forall>c \<in> set order. clients st c \<noteq> None"
    by simp_all
  show ?case
  proof (cases "fails a")
    case True
    let ?st' = "debugLog ''Client disconnected: %s''
                  ((debugLog ''Error sending message to WebSocket: %v''
                      (st\<lparr>writes := writes st @ [(a, msg, \<not> fails a)]\<rparr>))
                     \<lparr>clients := delete (clients st) a\<rparr>)"
    have "\<forall>c \<in> set order. clients ?st' c \<noteq> None"
      using rest a by (auto simp add: delete_def)
    from Cons.IH [OF a(3) this] show ?thesis
      using a True by (auto simp add: Let_def fun_eq_iff delete_def)
  next
    case False
    let ?st' = "st\<lparr>writes := writes st @ [(a, msg, \<not> fails a)]\<rparr>"
    have "\<forall>c \<in> set order. clients ?st' c \<noteq> None"
      using rest by simp
    from Cons.IH [OF a(3) this] show ?thesis
      using a False by (auto simp add: Let_def fun_eq_iff)
  qed
qed


lemma send_each_any:
  "\<exists>ws. writes (send_each msg fails order st) = writes st @ ws
      \<and> (\<forall>w \<in> set ws. clients st (fst w) \<noteq> None)"
proof (induction order arbitrary: st)
  case Nil
  then show ?case by simp
next
  case (Cons a order)
  show ?case
  proof (cases "clients st a = None")
    case True
    then show ?thesis using Cons.IH [of st] by simp
  next
    case False
    let ?st1 = "st\<lparr>writes := writes st @ [(a, msg, \<not> fails a)]\<rparr>"
    let ?st2 = "debugLog ''Client disconnected: %s''
                  ((debugLog ''Error sending message to WebSocket: %v'' ?st1)
                     \<lparr>clients := delete (clients ?st1) a\<rparr>)"
    show ?thesis
    proof (cases "fails a")
      case True
      from Cons.IH [of ?st2] obtain ws where
        ws: "writes (send_each msg fails order ?st2) = writes ?st2 @ ws"
            "\<forall>w \<in> set ws. clients ?st2 (fst w) \<noteq> None"
        by blast
      have "\<forall>w \<in> set ((a, msg, \<not> fails a) # ws). clients st (fst w) \<noteq> None"
        using ws(2) False by (auto simp add: delete_def split: if_splits)
      moreover have "writes (send_each msg fails (a # order) st) =
          writes st @ ((a, msg, \<not> fails a) # ws)"
        using ws(1) False True by (auto simp add: Let_def)
      ultimately show ?thesis by blast
    next
      case nofail: False
      from Cons.IH [of ?st1] obtain ws where
        ws: "writes (send_each msg fails order ?st1) = writes ?st1 @ ws"
            "\<forall>w \<in> set ws. clients ?st1 (fst w) \<noteq> None"
        by blast
      have "\<forall>w \<in> set ((a, msg, \<not> fails a) # ws). clients st (fst w) \<noteq> None"
        using ws(2) False by auto
      moreover have "writes (send_each msg fails (a # order) st) =
          writes st @ ((a, msg, \<not> fails a) # ws)"
        using ws(1) False nofail by (auto simp add: Let_def)
      ultimately show ?thesis by blast
    qed
  qed
qed

lemma send_each_unregistered:
  "clients st c = None \<Longrightarrow> clients (send_each msg fails order st) c = None"
  by (induction order arbitrary: st) (simp_all add: Let_def delete_def)


lemma consume_full:
  "broadcast_cap \<le> length (broadcast st) \<Longrightarrow> consume U p st = None"
  by (simp add: consume_def chan_send_def)

lemma consume_room:
  assumes "length (broadcast st) < broadcast_cap"
  shows "\<exists>st'. consume U p st = Some st'
      \<and> broadcast st' = broadcast st @ [p]
      \<and> latest st' = (case U p of None \<Rightarrow> latest st | Some M \<Rightarrow> update_latest (latest st) M)
      \<and> clients st' = clients st \<and> subscriber st' = subscriber st
      \<and> conns st' = conns st \<and> writes st' = writes st \<and> config st' = config st"
  using assms by (simp add: consume_def chan_send_def Let_def split: option.split)

lemma handleMessages_empty:
  "broadcast st = [] \<Longrightarrow> handleMessages order fails st = None"
  by (simp add: handleMessages_def chan_recv_def)

lemma handleMessages_Cons:
  "broadcast st = msg # rest \<Longrightarrow>
   handleMessages order fails st = Some (send_each msg fails order (st\<lparr>broadcast := rest\<rparr>))"
  by (simp add: handleMessages_def chan_recv_def)

lemma exec_unregistered:
  assumes "clients st c = None" and "c < conns st"
  shows "clients (exec U ev st) c = None \<and> c < conns (exec U ev st)
      \<and> (\<exists>ws. writes (exec U ev st) = writes st @ ws \<and> (\<forall>w \<in> set ws. fst w \<noteq> c))"
proof (cases ev)
  case (Receive err)
  then show ?thesis using assms by (simp add: subscribe_def Let_def split: option.split)
next
  case (Message payload)
  show ?thesis
  proof (cases "subscriber st = Consuming \<and> length (broadcast st) < broadcast_cap")
    case True
    with consume_room [of st U payload] obtain st' where
      "consume U payload st = Some st'" "clients st' = clients st"
      "conns st' = conns st" "writes st' = writes st"
      by blast
    then show ?thesis using assms Message True by simp
  next
    case False
    then show ?thesis using assms Message consume_full [of st U payload] by auto
  qed
next
  case ChannelClosed
  then show ?thesis using assms by simp
next
  case (Dispatch order fails)
  show ?thesis
  proof (cases "broadcast st")
    case Nil
    then show ?thesis using assms Dispatch by (simp add: handleMessages_empty)
  next
    case (Cons msg rest)
    let ?st = "st\<lparr>broadcast := rest\<rparr>"
    from send_each_any [of msg fails order ?st] obtain ws where
      ws: "writes (send_each msg fails order ?st) = writes ?st @ ws"
          "\<forall>w \<in> set ws. clients ?st (fst w) \<noteq> None"
      by blast
    have "\<forall>w \<in> set ws. fst w \<noteq> c"
      using ws(2) assms(1) by auto
    moreover have "clients (send_each msg fails order ?st) c = None"
      using assms(1) by (simp add: send_each_unregistered)
    ultimately show ?thesis
      using Dispatch Cons ws(1) assms(2) by (simp add: handleMessages_Cons)
  qed
next
  case (Upgrade err)
  then show ?thesis using assms by (simp add: handleWebSocket_def split: option.split)
next
  case (ReadMessage conn r)
  then show ?thesis using assms by (simp add: readMessage_def delete_def split: sum.split)
qed

lemma run_unregistered:
  "clients st c = None \<Longrightarrow> c < conns st \<Longrightarrow>
   clients (run U evs st) c = None \<and> c < conns (run U evs st)
     \<and> (\<exists>ws. writes (run U evs st) = writes st @ ws \<and> (\<forall>w \<in> set ws. fst w \<noteq> c))"
proof (induction evs arbitrary: st)
  case Nil
  then show ?case by simp
next
  case (Cons ev evs)
  from exec_unregistered [OF Cons.prems, of U ev] obtain ws1 where
    s1: "clients (exec U ev st) c = None" "c < conns (exec U ev st)"
        "writes (exec U ev st) = writes st @ ws1" "\<forall>w \<in> set ws1. fst w \<noteq> c"
    by blast
  from Cons.IH [OF s1(1,2)] obtain ws2 where
    s2: "clients (run U evs (exec U ev st)) c = None" "c < conns (run U evs (exec U ev st))"
        "writes (run U evs (exec U ev st)) = writes (exec U ev st) @ ws2"
        "\<forall>w \<in> set ws2. fst w \<noteq> c"
    by blast
  have "writes (run U (ev # evs) st) = writes st @ (ws1 @ ws2)"
    using s1(3) s2(3) by simp
  moreover have "\<forall>w \<in> set (ws1 @ ws2). fst w \<noteq> c"
    using s1(4) s2(4) by auto
  ultimately show ?case using s2(1,2) by (simp only: run.simps) blast
qed


lemma filter_enum:
  "distinct order \<Longrightarrow> c \<in> set order \<Longrightarrow>
   filter (\<lambda>w. fst w = c) (map (\<lambda>c. (c, f c)) order) = [(c, f c)]"
proof (induction order)
  case Nil
  then show ?case by simp
next
  case (Cons a order)
  show ?case
  proof (cases "a = c")
    case True
    with Cons.prems have "c \<notin> set order" by simp
    then have "filter (\<lambda>w. fst w = c) (map (\<lambda>c. (c, f c)) order) = []"
      by (induction order) auto
    with True show ?thesis by simp
  next
    case False
    with Cons show ?thesis by simp
  qed
qed

text \<open>
  C5. Delivery under send failure.  In one dispatch cycle over the registered targets,
  taken in any order, every target gets exactly one write of the payload, so a target
  whose send succeeds receives it exactly once and a failing send does not stop the
  sends to the others; the targets whose send fails are removed from the registry in
  that cycle, the others stay; and whatever happens afterwards, no write is ever
  attempted again to a target that was removed.
\<close>

theorem delivery_under_failure:
  assumes "broadcast st = msg # rest"
    and "distinct order" and "set order = dom (clients st)"
    and "\<forall>c. clients st c \<noteq> None \<longrightarrow> c < conns st"
  shows "writes (exec U (Dispatch order fails) st) =
           writes st @ map (\<lambda>c. (c, msg, \<not> fails c)) order
    \<and> (\<forall>c. clients st c \<noteq> None \<longrightarrow>
          filter (\<lambda>w. fst w = c) (map (\<lambda>c. (c, msg, \<not> fails c)) order) =
            [(c, msg, \<not> fails c)])
    \<and> clients (exec U (Dispatch order fails) st) =
          (\<lambda>c. if fails c then None else clients st c)
    \<and> (\<forall>c evs. clients st c \<noteq> None \<and> fails c \<longrightarrow>
          (\<exists>ws. writes (run U evs (exec U (Dispatch order fails) st)) =
                  writes (exec U (Dispatch order fails) st) @ ws
              \<and> (\<forall>w \<in> set ws. fst w \<noteq> c)))"
proof -
  let ?st = "st\<lparr>broadcast := rest\<rparr>"
  let ?st' = "exec U (Dispatch order fails) st"
  have step: "?st' = send_each msg fails order ?st"
    using assms(1) by (simp add: handleMessages_Cons)
  have members: "\<forall>c \<in> set order. clients ?st c \<noteq> None"
    using assms(3) by auto
  note enum = send_each_enum [OF assms(2) members, of msg fails]
  have w: "writes ?st' = writes st @ map (\<lambda>c. (c, msg, \<not> fails c)) order"
    using enum step by simp
  have once: "\<forall>c. clients st c \<noteq> None \<longrightarrow>
      filter (\<lambda>w. fst w = c) (map (\<lambda>c. (c, msg, \<not> fails c)) order) =
        [(c, msg, \<not> fails c)]"
  proof (intro allI impI)
    fix c assume "clients st c \<noteq> None"
    then have "c \<in> set order" using assms(3) by auto
    from filter_enum [OF assms(2) this, of "\<lambda>c. (msg, \<not> fails c)"]
    show "filter (\<lambda>w. fst w = c) (map (\<lambda>c. (c, msg, \<not> fails c)) order) =
        [(c, msg, \<not> fails c)]" .
  qed
  have cl: "clients ?st' = (\<lambda>c. if fails c then None else clients st c)"
  proof
    fix c
    show "clients ?st' c = (if fails c then None else clients st c)"
      using enum step assms(3) by (cases "clients st c") (auto simp add: dom_def)
  qed
  have later: "\<forall>c evs. clients st c \<noteq> None \<and> fails c \<longrightarrow>
      (\<exists>ws. writes (run U evs ?st') = writes ?st' @ ws \<and> (\<forall>w \<in> set ws. fst w \<noteq> c))"
  proof (intro allI impI)
    fix c evs assume c: "clients st c \<noteq> None \<and> fails c"
    then have "clients ?st' c = None" using cl by simp
    moreover have "c < conns ?st'" using c assms(4) step by simp
    ultimately show "\<exists>ws. writes (run U evs ?st') = writes ?st' @ ws
        \<and> (\<forall>w \<in> set ws. fst w \<noteq> c)"
      using run_unregistered [of ?st' c U evs] by blast
  qed
  from w once cl later show ?thesis by blast
qed

lemmas model_defs =
  start_def initConfig_def getEnv_def handleWebSocket_def readMessage_def subscribe_def
  consume_def handleMessages_def chan_send_def chan_recv_def broadcast_cap_def
  debugLog_def infoLog_def errorLog_def command_def delete_def Let_def

theorem delivery_under_failure_witness:
  "broadcast (run (\<lambda>_. None)
       [Upgrade None, Upgrade None, Upgrade None, Receive None, Message ''m'']
       (start (\<lambda>_. []))) = [''m'']
 \<and> distinct [2, 0, 1::nat]
 \<and> dom (clients (run (\<lambda>_. None)
       [Upgrade None, Upgrade None, Upgrade None, Receive None, Message ''m'']
       (start (\<lambda>_. [])))) = set [2, 0, 1]
 \<and> conns (run (\<lambda>_. None)
       [Upgrade None, Upgrade None, Upgrade None, Receive None, Message ''m'']
       (start (\<lambda>_. []))) = 3
 \<and> writes (exec (\<lambda>_. None) (Dispatch [2, 0, 1] (\<lambda>c. c = 1))
       (run (\<lambda>_. None)
          [Upgrade None, Upgrade None, Upgrade None, Receive None, Message ''m'']
          (start (\<lambda>_. [])))) =
     [(2, ''m'', True), (0, ''m'', True), (1, ''m'', False)]
 \<and> dom (clients (exec (\<lambda>_. None) (Dispatch [2, 0, 1] (\<lambda>c. c = 1))
       (run (\<lambda>_. None)
          [Upgrade None, Upgrade None, Upgrade None, Receive None, Message ''m'']
          (start (\<lambda>_. []))))) = {0, 2}
 \<and> writes (run (\<lambda>_. None) [Message ''n'', Dispatch [1, 2, 0] (\<lambda>c. False)]
       (exec (\<lambda>_. None) (Dispatch [2, 0, 1] (\<lambda>c. c = 1))
          (run (\<lambda>_. None)
             [Upgrade None, Upgrade None, Upgrade None, Receive None, Message ''m'']
             (start (\<lambda>_. []))))) =
     [(2, ''m'', True), (0, ''m'', True), (1, ''m'', False),
      (2, ''n'', True), (0, ''n'', True)]"
proof -
  let ?s = "run (\<lambda>_. None)
       [Upgrade None, Upgrade None, Upgrade None, Receive None, Message ''m'']
       (start (\<lambda>_. []))"
  have q: "broadcast ?s = ''m'' # []"
    by (simp add: model_defs)
  have d: "distinct [2, 0, 1::nat]"
    by simp
  have cl: "clients ?s = (\<lambda>c. if c = 0 \<or> c = 1 \<or> c = 2 then Some True else None)"
    by (auto simp add: model_defs fun_eq_iff)
  have m: "set [2, 0, 1] = dom (clients ?s)"
    unfolding cl by (auto simp add: dom_def)
  have n: "conns ?s = 3"
    by (simp add: model_defs)
  have f: "\<forall>c. clients ?s c \<noteq> None \<longrightarrow> c < conns ?s"
    unfolding cl n by auto
  have w0: "writes ?s = []"
    by (simp add: model_defs)
  from delivery_under_failure [OF q d m f, of "\<lambda>_. None" "\<lambda>c. c = 1"]
  have w: "writes (exec (\<lambda>_. None) (Dispatch [2, 0, 1] (\<lambda>c. c = 1)) ?s) =
      writes ?s @ map (\<lambda>c. (c, ''m'', \<not> c = 1)) [2, 0, 1]"
    and c: "clients (exec (\<lambda>_. None) (Dispatch [2, 0, 1] (\<lambda>c. c = 1)) ?s) =
      (\<lambda>c. if c = 1 then None else clients ?s c)"
    by blast+
  have c1: "broadcast ?s = [''m'']"
    using q by simp
  have c3: "dom (clients ?s) = set [2, 0, 1]"
    using m by simp
  have c5: "writes (exec (\<lambda>_. None) (Dispatch [2, 0, 1] (\<lambda>c. c = 1)) ?s) =
      [(2, ''m'', True), (0, ''m'', True), (1, ''m'', False)]"
    unfolding w w0 by simp
  have c6: "dom (clients (exec (\<lambda>_. None) (Dispatch [2, 0, 1] (\<lambda>c. c = 1)) ?s)) = {0, 2}"
    unfolding c cl by (auto simp add: dom_def split: if_splits)
  have c7: "writes (run (\<lambda>_. None) [Message ''n'', Dispatch [1, 2, 0] (\<lambda>c. False)]
       (exec (\<lambda>_. None) (Dispatch [2, 0, 1] (\<lambda>c. c = 1)) ?s)) =
     [(2, ''m'', True), (0, ''m'', True), (1, ''m'', False),
      (2, ''n'', True), (0, ''n'', True)]"
    by (simp add: model_defs)
  from c1 d c3 n c5 c6 c7 show ?thesis
    by (intro conjI)
qed

text \<open>
  C9. Unregistering is idempotent.  Removing a target that is not in the registry leaves
  the registry as it is, whether the removal is the \<^verbatim>\<open>delete\<close> itself or the step of the
  handler that performs it; so removing a target twice, by the handler twice or by the
  handler after the dispatcher has removed it for a failed send, gives the registry that
  the first removal gave.
\<close>

theorem unregister_idempotent:
  "(clients st conn = None \<longrightarrow>
      delete (clients st) conn = clients st
    \<and> clients (exec U (ReadMessage conn (Inl err)) st) = clients st)
 \<and> delete (delete (clients st) conn) conn = delete (clients st) conn
 \<and> clients (exec U (ReadMessage conn (Inl err')) (exec U (ReadMessage conn (Inl err)) st)) =
     clients (exec U (ReadMessage conn (Inl err)) st)
 \<and> (broadcast st = msg # rest \<and> distinct order \<and> set order = dom (clients st)
      \<and> fails conn \<longrightarrow>
      clients (exec U (ReadMessage conn (Inl err)) (exec U (Dispatch order fails) st)) =
        clients (exec U (Dispatch order fails) st))"
proof -
  have absent: "delete m k = m" if "m k = None" for m :: "conn \<Rightarrow> bool option" and k
    using that by (auto simp add: delete_def fun_eq_iff)
  have twice: "delete (delete m k) k = delete m k" for m :: "conn \<Rightarrow> bool option" and k
    by (simp add: delete_def)
  have rd: "clients (exec U (ReadMessage k (Inl e)) s) = delete (clients s) k" for k e s
    by (simp add: readMessage_def)
  have "clients (exec U (ReadMessage conn (Inl err)) (exec U (Dispatch order fails) st)) =
        clients (exec U (Dispatch order fails) st)"
    if h: "broadcast st = msg # rest \<and> distinct order \<and> set order = dom (clients st)
      \<and> fails conn"
  proof -
    have "\<forall>c \<in> set order. clients (st\<lparr>broadcast := rest\<rparr>) c \<noteq> None"
      using h by auto
    with h send_each_enum [of order "st\<lparr>broadcast := rest\<rparr>" msg fails]
    have "clients (exec U (Dispatch order fails) st) conn = None"
      by (cases "clients st conn") (auto simp add: handleMessages_Cons dom_def)
    then show ?thesis
      unfolding rd by (rule absent)
  qed
  then show ?thesis
    using absent [of "clients st" conn] twice [of "clients st" conn] rd by simp
qed

theorem unregister_idempotent_witness:
  "clients (exec (\<lambda>_. None) (Upgrade None) (start (\<lambda>_. []))) 7 = None
 \<and> clients (exec (\<lambda>_. None) (Upgrade None) (start (\<lambda>_. []))) 0 = Some True
 \<and> clients (exec (\<lambda>_. None) (ReadMessage 7 (Inl ''EOF''))
       (exec (\<lambda>_. None) (Upgrade None) (start (\<lambda>_. [])))) =
     clients (exec (\<lambda>_. None) (Upgrade None) (start (\<lambda>_. [])))
 \<and> clients (exec (\<lambda>_. None) (ReadMessage 0 (Inl ''EOF''))
       (exec (\<lambda>_. None) (ReadMessage 0 (Inl ''EOF''))
          (exec (\<lambda>_. None) (Upgrade None) (start (\<lambda>_. []))))) 0 = None
 \<and> clients (exec (\<lambda>_. None) (ReadMessage 0 (Inl ''EOF''))
       (exec (\<lambda>_. None) (ReadMessage 0 (Inl ''EOF''))
          (exec (\<lambda>_. None) (Upgrade None) (start (\<lambda>_. []))))) =
     clients (exec (\<lambda>_. None) (ReadMessage 0 (Inl ''EOF''))
       (exec (\<lambda>_. None) (Upgrade None) (start (\<lambda>_. []))))
 \<and> broadcast (run (\<lambda>_. None) [Upgrade None, Receive None, Message ''m'']
       (start (\<lambda>_. []))) = [''m'']
 \<and> dom (clients (run (\<lambda>_. None) [Upgrade None, Receive None, Message ''m'']
       (start (\<lambda>_. [])))) = set [0]
 \<and> clients (exec (\<lambda>_. None) (ReadMessage 0 (Inl ''EOF''))
       (exec (\<lambda>_. None) (Dispatch [0] (\<lambda>c. True))
          (run (\<lambda>_. None) [Upgrade None, Receive None, Message ''m'']
             (start (\<lambda>_. []))))) =
     clients (exec (\<lambda>_. None) (Dispatch [0] (\<lambda>c. True))
       (run (\<lambda>_. None) [Upgrade None, Receive None, Message ''m''] (start (\<lambda>_. []))))"
proof -
  let ?s = "exec (\<lambda>_. None) (Upgrade None) (start (\<lambda>_. []))"
  let ?t = "run (\<lambda>_. None) [Upgrade None, Receive None, Message ''m''] (start (\<lambda>_. []))"
  have a: "clients ?s 7 = None" and b: "clients ?s 0 = Some True"
    by (simp_all add: model_defs)
  from unregister_idempotent [of ?s 7 "\<lambda>_. None" "''EOF''"] a
  have c: "clients (exec (\<lambda>_. None) (ReadMessage 7 (Inl ''EOF'')) ?s) = clients ?s"
    by blast
  from unregister_idempotent [of ?s 0 "\<lambda>_. None" "''EOF''" "''EOF''"]
  have e: "clients (exec (\<lambda>_. None) (ReadMessage 0 (Inl ''EOF''))
       (exec (\<lambda>_. None) (ReadMessage 0 (Inl ''EOF'')) ?s)) =
     clients (exec (\<lambda>_. None) (ReadMessage 0 (Inl ''EOF'')) ?s)"
    by blast
  have d: "clients (exec (\<lambda>_. None) (ReadMessage 0 (Inl ''EOF''))
       (exec (\<lambda>_. None) (ReadMessage 0 (Inl ''EOF'')) ?s)) 0 = None"
    by (simp add: model_defs)
  have q: "broadcast ?t = [''m'']"
    by (simp add: model_defs)
  have m: "dom (clients ?t) = set [0]"
    by (auto simp add: model_defs)
  have "broadcast ?t = ''m'' # [] \<and> distinct [0::nat] \<and> set [0] = dom (clients ?t) \<and> True"
    using q m by simp
  with unregister_idempotent
    [of ?t 0 "\<lambda>_. None" "''EOF''" "''EOF''" "''m''" "[]" "[0]" "\<lambda>c. True"]
  have g: "clients (exec (\<lambda>_. None) (ReadMessage 0 (Inl ''EOF''))
       (exec (\<lambda>_. None) (Dispatch [0] (\<lambda>c. True)) ?t)) =
     clients (exec (\<lambda>_. None) (Dispatch [0] (\<lambda>c. True)) ?t)"
    by blast
  from a b c d e q m g show ?thesis by (intro conjI)
qed

lemma run_append: "run U (xs @ ys) st = run U ys (run U xs st)"
  by (induction xs arbitrary: st) simp_all

lemma exec_Message_room:
  assumes "subscriber st = Consuming" and "length (broadcast st) < broadcast_cap"
  shows "exec U (Message p) st =
     (case U p of
        None \<Rightarrow> errorLog ''Error decoding traffic payload: %v''
                  (st\<lparr>broadcast := broadcast st @ [p]\<rparr>)
      | Some M \<Rightarrow> the (consume U p st))"
  using assms by (simp add: consume_def chan_send_def split: option.split)

lemma exec_Message_fields:
  assumes "subscriber st = Consuming" and "length (broadcast st) < broadcast_cap"
  shows "broadcast (exec U (Message p) st) = broadcast st @ [p]"
    and "latest (exec U (Message p) st) =
           (case U p of None \<Rightarrow> latest st | Some M \<Rightarrow> update_latest (latest st) M)"
    and "subscriber (exec U (Message p) st) = Consuming"
    and "clients (exec U (Message p) st) = clients st"
    and "writes (exec U (Message p) st) = writes st"
    and "conns (exec U (Message p) st) = conns st"
  using assms consume_room [OF assms(2), of U p] by auto

lemma exec_Message_full:
  "broadcast_cap \<le> length (broadcast st) \<Longrightarrow> exec U (Message p) st = st"
  by (simp add: consume_full)

lemma exec_Dispatch_broadcast:
  "broadcast (exec U (Dispatch order fails) st) = tl (broadcast st)"
  by (cases "broadcast st") (simp_all add: handleMessages_empty handleMessages_Cons)

lemma run_dispatches:
  "broadcast (run U (map (case_prod Dispatch) cycles) st) = drop (length cycles) (broadcast st)"
proof (induction cycles arbitrary: st)
  case Nil
  then show ?case by simp
next
  case (Cons cycle cycles)
  obtain order fails where cycle: "cycle = (order, fails)"
    by (cases cycle)
  show ?case
    using Cons.IH [of "exec U (Dispatch order fails) st"]
    by (simp add: cycle exec_Dispatch_broadcast drop_Suc del: exec.simps)
qed

text \<open>
  C4. Parse failure.  The iteration for a received payload first sends the payload on
  the fan-out queue: with room in the queue the payload is appended whatever the decoder
  says, and while the queue is full nothing at all happens, no decoding either.  When
  the decoder then returns an error, the step changes the queue and the log and nothing
  else, so the snapshot is what it was; the loop goes on and the next message is enqueued
  and merged into that unchanged snapshot; and the payload that failed to parse reaches
  the front of the queue after the earlier payloads have been dispatched, and is then
  written as it is to every registered target.
\<close>

theorem parse_failure_forwarding:
  assumes "subscriber st = Consuming"
  shows "(length (broadcast st) < broadcast_cap \<longrightarrow>
            broadcast (exec U (Message payload) st) = broadcast st @ [payload])
    \<and> (broadcast_cap \<le> length (broadcast st) \<longrightarrow> exec U (Message payload) st = st)
    \<and> (length (broadcast st) < broadcast_cap \<and> U payload = None \<longrightarrow>
          exec U (Message payload) st =
            errorLog ''Error decoding traffic payload: %v''
              (st\<lparr>broadcast := broadcast st @ [payload]\<rparr>)
        \<and> latest (exec U (Message payload) st) = latest st
        \<and> subscriber (exec U (Message payload) st) = Consuming)
    \<and> (Suc (length (broadcast st)) < broadcast_cap \<and> U payload = None \<longrightarrow>
          broadcast (run U [Message payload, Message next] st) =
            broadcast st @ [payload, next]
        \<and> latest (run U [Message payload, Message next] st) =
            (case U next of None \<Rightarrow> latest st | Some M \<Rightarrow> update_latest (latest st) M))
    \<and> (length (broadcast st) < broadcast_cap \<and> U payload = None
        \<and> length cycles = length (broadcast st) \<and> distinct order
        \<and> set order =
            dom (clients (run U (Message payload # map (case_prod Dispatch) cycles) st)) \<longrightarrow>
          writes (run U (Message payload # map (case_prod Dispatch) cycles
                          @ [Dispatch order fails]) st) =
            writes (run U (Message payload # map (case_prod Dispatch) cycles) st)
              @ map (\<lambda>c. (c, payload, \<not> fails c)) order)"
proof -
  note exec.simps [simp del]
  let ?st1 = "exec U (Message payload) st"
  note fields = exec_Message_fields [OF assms, of U payload]
  have enq: "length (broadcast st) < broadcast_cap \<longrightarrow>
      broadcast ?st1 = broadcast st @ [payload]"
    using fields(1) by simp
  have full: "broadcast_cap \<le> length (broadcast st) \<longrightarrow> ?st1 = st"
    by (simp add: exec_Message_full del: exec.simps)
  have fail: "length (broadcast st) < broadcast_cap \<and> U payload = None \<longrightarrow>
      ?st1 = errorLog ''Error decoding traffic payload: %v''
               (st\<lparr>broadcast := broadcast st @ [payload]\<rparr>)
    \<and> latest ?st1 = latest st \<and> subscriber ?st1 = Consuming"
  proof
    assume h: "length (broadcast st) < broadcast_cap \<and> U payload = None"
    then have room: "length (broadcast st) < broadcast_cap" and none: "U payload = None"
      by simp_all
    show "?st1 = errorLog ''Error decoding traffic payload: %v''
               (st\<lparr>broadcast := broadcast st @ [payload]\<rparr>)
      \<and> latest ?st1 = latest st \<and> subscriber ?st1 = Consuming"
      using exec_Message_room [OF assms room, of U payload] fields(2,3) [OF room] none
      by (simp del: exec.simps)
  qed
  have cont: "Suc (length (broadcast st)) < broadcast_cap \<and> U payload = None \<longrightarrow>
      broadcast (run U [Message payload, Message next] st) = broadcast st @ [payload, next]
    \<and> latest (run U [Message payload, Message next] st) =
        (case U next of None \<Rightarrow> latest st | Some M \<Rightarrow> update_latest (latest st) M)"
  proof
    assume h: "Suc (length (broadcast st)) < broadcast_cap \<and> U payload = None"
    then have room: "length (broadcast st) < broadcast_cap" by simp
    have s1: "subscriber ?st1 = Consuming" "broadcast ?st1 = broadcast st @ [payload]"
      "latest ?st1 = latest st"
      using fields room h by simp_all
    have room1: "length (broadcast ?st1) < broadcast_cap"
      using h s1(2) by simp
    from exec_Message_fields(1,2) [OF s1(1) room1, of U "next"] s1(2,3)
    show "broadcast (run U [Message payload, Message next] st) = broadcast st @ [payload, next]
      \<and> latest (run U [Message payload, Message next] st) =
        (case U next of None \<Rightarrow> latest st | Some M \<Rightarrow> update_latest (latest st) M)"
      by (simp split: option.split)
  qed
  have deliver: "length (broadcast st) < broadcast_cap \<and> U payload = None
        \<and> length cycles = length (broadcast st) \<and> distinct order
        \<and> set order =
            dom (clients (run U (Message payload # map (case_prod Dispatch) cycles) st)) \<longrightarrow>
          writes (run U (Message payload # map (case_prod Dispatch) cycles
                          @ [Dispatch order fails]) st) =
            writes (run U (Message payload # map (case_prod Dispatch) cycles) st)
              @ map (\<lambda>c. (c, payload, \<not> fails c)) order"
  proof
    let ?st2 = "run U (Message payload # map (case_prod Dispatch) cycles) st"
    assume h: "length (broadcast st) < broadcast_cap \<and> U payload = None
        \<and> length cycles = length (broadcast st) \<and> distinct order
        \<and> set order = dom (clients ?st2)"
    have "broadcast ?st2 = drop (length cycles) (broadcast ?st1)"
      using run_dispatches [of U cycles ?st1] by simp
    then have q: "broadcast ?st2 = [payload]"
      using h fields(1) by simp
    have members: "\<forall>c \<in> set order. clients (?st2\<lparr>broadcast := []\<rparr>) c \<noteq> None"
      using h by auto
    have "run U (Message payload # map (case_prod Dispatch) cycles @ [Dispatch order fails]) st
        = exec U (Dispatch order fails) ?st2"
      using run_append [of U "Message payload # map (case_prod Dispatch) cycles"
          "[Dispatch order fails]" st]
      by simp
    also have "\<dots> = send_each payload fails order (?st2\<lparr>broadcast := []\<rparr>)"
      using q by (simp add: handleMessages_Cons exec.simps)
    finally show "writes (run U (Message payload # map (case_prod Dispatch) cycles
                          @ [Dispatch order fails]) st) =
            writes ?st2 @ map (\<lambda>c. (c, payload, \<not> fails c)) order"
      using send_each_enum [of order "?st2\<lparr>broadcast := []\<rparr>" payload fails] h members
      by simp
  qed
  from enq full fail cont deliver show ?thesis
    by (intro conjI)
qed

theorem parse_failure_forwarding_witness:
  "subscriber (run (\<lambda>p. if p = ''ok'' then Some \<lparr>trafficMessage.PacketCount = 1, Timestamp = 5,
                      Packets = [Decoded (JString ''e'')]\<rparr> else None)
       [Upgrade None, Upgrade None, Receive None, Message ''ok''] (start (\<lambda>_. []))) = Consuming
 \<and> broadcast (run (\<lambda>p. if p = ''ok'' then Some \<lparr>trafficMessage.PacketCount = 1, Timestamp = 5,
                      Packets = [Decoded (JString ''e'')]\<rparr> else None)
       [Upgrade None, Upgrade None, Receive None, Message ''ok''] (start (\<lambda>_. []))) = [''ok'']
 \<and> (\<lambda>p. if p = ''ok'' then Some \<lparr>trafficMessage.PacketCount = 1, Timestamp = 5,
                      Packets = [Decoded (JString ''e'')]\<rparr> else None) ''{oops'' = None
 \<and> broadcast (run (\<lambda>p. if p = ''ok'' then Some \<lparr>trafficMessage.PacketCount = 1, Timestamp = 5,
                      Packets = [Decoded (JString ''e'')]\<rparr> else None)
       [Upgrade None, Upgrade None, Receive None, Message ''ok'', Message ''{oops'']
       (start (\<lambda>_. []))) = [''ok'', ''{oops'']
 \<and> latest (run (\<lambda>p. if p = ''ok'' then Some \<lparr>trafficMessage.PacketCount = 1, Timestamp = 5,
                      Packets = [Decoded (JString ''e'')]\<rparr> else None)
       [Upgrade None, Upgrade None, Receive None, Message ''ok'', Message ''{oops'']
       (start (\<lambda>_. []))) =
     \<lparr>latestData.Timestamp = 5, PacketCount = 1, Packets = [Decoded (JString ''e'')]\<rparr>
 \<and> latest (run (\<lambda>p. if p = ''ok'' then Some \<lparr>trafficMessage.PacketCount = 1, Timestamp = 5,
                      Packets = [Decoded (JString ''e'')]\<rparr> else None)
       [Upgrade None, Upgrade None, Receive None, Message ''ok'', Message ''{oops'', Message ''ok'']
       (start (\<lambda>_. []))) =
     \<lparr>latestData.Timestamp = 5, PacketCount = 2,
      Packets = [Decoded (JString ''e''), Decoded (JString ''e'')]\<rparr>
 \<and> writes (run (\<lambda>p. if p = ''ok'' then Some \<lparr>trafficMessage.PacketCount = 1, Timestamp = 5,
                      Packets = [Decoded (JString ''e'')]\<rparr> else None)
       [Upgrade None, Upgrade None, Receive None, Message ''ok'', Message ''{oops'',
        Dispatch [0, 1] (\<lambda>c. False), Dispatch [1, 0] (\<lambda>c. False)]
       (start (\<lambda>_. []))) =
     [(0, ''ok'', True), (1, ''ok'', True), (1, ''{oops'', True), (0, ''{oops'', True)]
 \<and> broadcast_cap \<le> length (broadcast
       ((start (\<lambda>_. []))\<lparr>broadcast := replicate 100 ''x'', subscriber := Consuming\<rparr>))
 \<and> exec (\<lambda>p. None) (Message ''{oops'')
       ((start (\<lambda>_. []))\<lparr>broadcast := replicate 100 ''x'', subscriber := Consuming\<rparr>) =
     (start (\<lambda>_. []))\<lparr>broadcast := replicate 100 ''x'', subscriber := Consuming\<rparr>"
proof -
  let ?U = "\<lambda>p. if p = ''ok'' then Some \<lparr>trafficMessage.PacketCount = 1, Timestamp = 5,
                      Packets = [Decoded (JString ''e'')]\<rparr> else None"
  let ?s = "run ?U [Upgrade None, Upgrade None, Receive None, Message ''ok'']
              (start (\<lambda>_. []))"
  let ?f = "(start (\<lambda>_. []))\<lparr>broadcast := replicate 100 ''x'', subscriber := Consuming\<rparr>"
  let ?c = "[([0, 1], \<lambda>c. False)] :: (conn list \<times> (conn \<Rightarrow> bool)) list"
  have sub: "subscriber ?s = Consuming"
    by (simp add: model_defs)
  have q: "broadcast ?s = [''ok'']"
    by (simp add: model_defs)
  have none: "?U ''{oops'' = None"
    by simp
  have room: "length (broadcast ?s) < broadcast_cap"
    and room2: "Suc (length (broadcast ?s)) < broadcast_cap"
    unfolding q by (simp_all add: broadcast_cap_def)
  have l: "latest ?s =
      \<lparr>latestData.Timestamp = 5, PacketCount = 1, Packets = [Decoded (JString ''e'')]\<rparr>"
    by (simp add: model_defs update_latest_def empty_latest_def)
  have cl: "set [1, 0] = dom (clients (run ?U (Message ''{oops'' # map (case_prod Dispatch) ?c) ?s))"
    by (auto simp add: model_defs)
  have w: "writes (run ?U (Message ''{oops'' # map (case_prod Dispatch) ?c) ?s) =
      [(0, ''ok'', True), (1, ''ok'', True)]"
    by (simp add: model_defs)
  note inst = parse_failure_forwarding
    [OF sub, of ?U "''{oops''" "''ok''" ?c "[1, 0]" "\<lambda>c. False"]
  have i1: "broadcast (exec ?U (Message ''{oops'') ?s) = broadcast ?s @ [''{oops'']"
    by (rule inst [THEN conjunct1, THEN mp, OF room])
  have i3: "latest (exec ?U (Message ''{oops'') ?s) = latest ?s"
    by (rule inst [THEN conjunct2, THEN conjunct2, THEN conjunct1, THEN mp,
          OF conjI [OF room none], THEN conjunct2, THEN conjunct1])
  have i4: "latest (run ?U [Message ''{oops'', Message ''ok''] ?s) =
      (case ?U ''ok'' of None \<Rightarrow> latest ?s | Some M \<Rightarrow> update_latest (latest ?s) M)"
    by (rule inst [THEN conjunct2, THEN conjunct2, THEN conjunct2, THEN conjunct1, THEN mp,
          OF conjI [OF room2 none], THEN conjunct2])
  have hyp5: "length (broadcast ?s) < broadcast_cap \<and> ?U ''{oops'' = None
        \<and> length ?c = length (broadcast ?s) \<and> distinct [1, 0::nat]
        \<and> set [1, 0] =
            dom (clients (run ?U (Message ''{oops'' # map (case_prod Dispatch) ?c) ?s))"
    using room none cl unfolding q by (intro conjI) simp_all
  have i5: "writes (run ?U (Message ''{oops'' # map (case_prod Dispatch) ?c
                          @ [Dispatch [1, 0] (\<lambda>c. False)]) ?s) =
            writes (run ?U (Message ''{oops'' # map (case_prod Dispatch) ?c) ?s)
              @ map (\<lambda>c. (c, ''{oops'', \<not> False)) [1, 0]"
    by (rule inst [THEN conjunct2, THEN conjunct2, THEN conjunct2, THEN conjunct2, THEN mp,
          OF hyp5])
  have c4: "broadcast (run ?U [Upgrade None, Upgrade None, Receive None, Message ''ok'',
      Message ''{oops''] (start (\<lambda>_. []))) = [''ok'', ''{oops'']"
    using i1 unfolding q by (simp only: run.simps append.simps)
  have c5: "latest (run ?U [Upgrade None, Upgrade None, Receive None, Message ''ok'',
      Message ''{oops''] (start (\<lambda>_. []))) =
      \<lparr>latestData.Timestamp = 5, PacketCount = 1, Packets = [Decoded (JString ''e'')]\<rparr>"
    using i3 unfolding l by (simp only: run.simps)
  have "latest (run ?U [Message ''{oops'', Message ''ok''] ?s) =
     \<lparr>latestData.Timestamp = 5, PacketCount = 2,
      Packets = [Decoded (JString ''e''), Decoded (JString ''e'')]\<rparr>"
    unfolding i4 l by (simp add: update_latest_def)
  then have c6: "latest (run ?U [Upgrade None, Upgrade None, Receive None, Message ''ok'',
      Message ''{oops'', Message ''ok''] (start (\<lambda>_. []))) =
     \<lparr>latestData.Timestamp = 5, PacketCount = 2,
      Packets = [Decoded (JString ''e''), Decoded (JString ''e'')]\<rparr>"
    by (simp only: run.simps)
  have "writes (run ?U (Message ''{oops'' # map (case_prod Dispatch) ?c
                          @ [Dispatch [1, 0] (\<lambda>c. False)]) ?s) =
     [(0, ''ok'', True), (1, ''ok'', True), (1, ''{oops'', True), (0, ''{oops'', True)]"
    unfolding i5 w by simp
  then have c7: "writes (run ?U
       [Upgrade None, Upgrade None, Receive None, Message ''ok'', Message ''{oops'',
        Dispatch [0, 1] (\<lambda>c. False), Dispatch [1, 0] (\<lambda>c. False)]
       (start (\<lambda>_. []))) =
     [(0, ''ok'', True), (1, ''ok'', True), (1, ''{oops'', True), (0, ''{oops'', True)]"
    by (simp only: run.simps list.map append.simps prod.case)
  have fsub: "subscriber ?f = Consuming"
    by simp
  have c8: "broadcast_cap \<le> length (broadcast ?f)"
    by (simp add: broadcast_cap_def)
  have c9: "exec (\<lambda>p. None) (Message ''{oops'') ?f = ?f"
    by (rule parse_failure_forwarding [OF fsub, of "\<lambda>p. None" "''{oops''",
          THEN conjunct2, THEN conjunct1, THEN mp, OF c8])
  from sub q none c4 c5 c6 c7 c8 c9 show ?thesis
    by (intro conjI)
qed

lemma exec_Messages:
  "subscriber st = Consuming \<Longrightarrow> length (broadcast st) + length ps \<le> broadcast_cap \<Longrightarrow>
   broadcast (run U (map Message ps) st) = broadcast st @ ps
     \<and> subscriber (run U (map Message ps) st) = Consuming"
proof (induction ps arbitrary: st)
  case Nil
  then show ?case by simp
next
  case (Cons p ps)
  from Cons.prems have room: "length (broadcast st) < broadcast_cap"
    by simp
  note step = exec_Message_fields(1,3) [OF Cons.prems(1) room, of U p]
  have "length (broadcast (exec U (Message p) st)) + length ps \<le> broadcast_cap"
    using Cons.prems(2) step(1) by simp
  from Cons.IH [OF step(2) this] show ?case
    using step(1) by (simp del: exec.simps)
qed

lemma exec_broadcast_cases:
  "broadcast (exec U ev st) = broadcast st
     \<or> (\<exists>p. length (broadcast st) < broadcast_cap \<and> broadcast (exec U ev st) = broadcast st @ [p])
     \<or> (\<exists>order fails. ev = Dispatch order fails \<and> broadcast (exec U ev st) = tl (broadcast st))"
proof (cases ev)
  case (Receive err)
  then show ?thesis by (simp add: subscribe_def Let_def split: option.split)
next
  case (Message payload)
  show ?thesis
  proof (cases "subscriber st = Consuming \<and> length (broadcast st) < broadcast_cap")
    case True
    then show ?thesis
      using exec_Message_fields(1) [of st U payload] Message by blast
  next
    case False
    then show ?thesis
      using Message consume_full [of st U payload] by auto
  qed
next
  case ChannelClosed
  then show ?thesis by simp
next
  case (Dispatch order fails)
  then show ?thesis
    using exec_Dispatch_broadcast [of U order fails st] by blast
next
  case (Upgrade err)
  then show ?thesis by (simp add: handleWebSocket_def split: option.split)
next
  case (ReadMessage conn r)
  then show ?thesis by (simp add: readMessage_def split: sum.split)
qed

lemma exec_bounded:
  "length (broadcast st) \<le> broadcast_cap \<Longrightarrow>
   length (broadcast (exec U ev st)) \<le> broadcast_cap"
  using exec_broadcast_cases [of U ev st] by (auto simp del: exec.simps)

lemma run_bounded:
  "length (broadcast st) \<le> broadcast_cap \<Longrightarrow>
   length (broadcast (run U evs st)) \<le> broadcast_cap"
proof (induction evs arbitrary: st)
  case Nil
  then show ?case by simp
next
  case (Cons ev evs)
  from Cons.IH [OF exec_bounded [OF Cons.prems, of U ev]] show ?case
    by (simp del: exec.simps)
qed

lemma run_stays_full:
  "length (broadcast st) = broadcast_cap \<Longrightarrow> \<forall>order fails. Dispatch order fails \<notin> set evs \<Longrightarrow>
   broadcast (run U evs st) = broadcast st"
proof (induction evs arbitrary: st)
  case Nil
  then show ?case by simp
next
  case (Cons ev evs)
  have "broadcast (exec U ev st) = broadcast st"
    using exec_broadcast_cases [of U ev st] Cons.prems by (auto simp del: exec.simps)
  moreover from this Cons.prems
  have "broadcast (run U evs (exec U ev st)) = broadcast (exec U ev st)"
    by (intro Cons.IH) (simp_all del: exec.simps)
  ultimately show ?case by (simp del: exec.simps)
qed

lemma queue_scenario:
  "chan_send 2 [] ''a'' = Some [''a'']"
  "chan_send 2 [''a''] ''b'' = Some [''a'', ''b'']"
  "chan_send 2 [''a'', ''b''] ''c'' = None"
  "chan_recv [''a'', ''b''] = Some (''a'', [''b''])"
  "chan_send 2 [''b''] ''c'' = Some [''b'', ''c'']"
  by (simp_all add: chan_send_def chan_recv_def)

text \<open>
  C7. The fan-out queue is bounded and blocks its producer.  A buffered channel of any
  capacity accepts a send exactly when it holds fewer payloads than its capacity, and
  then appends the payload; otherwise the send blocks, and there is no third outcome.  A
  receive takes the oldest payload.  The capacity of \<^verbatim>\<open>broadcast\<close> is the constant 100 of
  types.go.  In the running process the queue never holds more than that many payloads;
  when as many payloads as the capacity have been consumed from the source with the
  queue empty at first, the queue holds them in arrival order, the iteration for one
  more payload blocks and stays blocked for as long as the dispatcher does not run, and
  after one iteration of the dispatcher, which takes the oldest payload, it goes
  through and puts the payload at the end of the queue.
\<close>

theorem bounded_queue_backpressure:
  "broadcast_cap = 100
 \<and> ((chan_send cap buf v = None) = (cap \<le> length buf))
 \<and> (length buf < cap \<longrightarrow> chan_send cap buf v = Some (buf @ [v]) \<and> length (buf @ [v]) \<le> cap)
 \<and> chan_recv (v # buf) = Some (v, buf)
 \<and> (length (broadcast st) \<le> broadcast_cap \<longrightarrow>
      length (broadcast (run U evs st)) \<le> broadcast_cap)
 \<and> (subscriber st = Consuming \<and> broadcast st = [] \<and> length ps = broadcast_cap \<longrightarrow>
      broadcast (run U (map Message ps) st) = ps
    \<and> consume U p (run U (map Message ps) st) = None
    \<and> exec U (Message p) (run U (map Message ps) st) = run U (map Message ps) st
    \<and> ((\<forall>order fails. Dispatch order fails \<notin> set evs') \<longrightarrow>
         consume U p (run U evs' (run U (map Message ps) st)) = None)
    \<and> broadcast (exec U (Dispatch order fails) (run U (map Message ps) st)) = tl ps
    \<and> broadcast (run U [Dispatch order fails, Message p] (run U (map Message ps) st)) =
         tl ps @ [p])"
proof -
  note exec.simps [simp del]
  have chan: "(chan_send cap buf v = None) = (cap \<le> length buf)"
    "length buf < cap \<longrightarrow> chan_send cap buf v = Some (buf @ [v]) \<and> length (buf @ [v]) \<le> cap"
    "chan_recv (v # buf) = Some (v, buf)"
    by (auto simp add: chan_send_def chan_recv_def)
  have inv: "length (broadcast st) \<le> broadcast_cap \<longrightarrow>
      length (broadcast (run U evs st)) \<le> broadcast_cap"
    by (simp add: run_bounded)
  have block: "broadcast (run U (map Message ps) st) = ps
    \<and> consume U p (run U (map Message ps) st) = None
    \<and> exec U (Message p) (run U (map Message ps) st) = run U (map Message ps) st
    \<and> ((\<forall>order fails. Dispatch order fails \<notin> set evs') \<longrightarrow>
         consume U p (run U evs' (run U (map Message ps) st)) = None)
    \<and> broadcast (exec U (Dispatch order fails) (run U (map Message ps) st)) = tl ps
    \<and> broadcast (run U [Dispatch order fails, Message p] (run U (map Message ps) st)) =
         tl ps @ [p]"
    if h: "subscriber st = Consuming \<and> broadcast st = [] \<and> length ps = broadcast_cap"
  proof -
    let ?full = "run U (map Message ps) st"
    from h exec_Messages [of st ps U]
    have full: "broadcast ?full = ps" and sub: "subscriber ?full = Consuming"
      by simp_all
    have len: "length (broadcast ?full) = broadcast_cap"
      using full h by simp
    have b1: "consume U p ?full = None"
      using len by (simp add: consume_full)
    have b2: "exec U (Message p) ?full = ?full"
      using len by (simp add: exec_Message_full)
    have b3: "(\<forall>order fails. Dispatch order fails \<notin> set evs') \<longrightarrow>
         consume U p (run U evs' ?full) = None"
    proof
      assume "\<forall>order fails. Dispatch order fails \<notin> set evs'"
      from run_stays_full [OF len this, of U]
      show "consume U p (run U evs' ?full) = None"
        using len by (simp add: consume_full)
    qed
    let ?deq = "exec U (Dispatch order fails) ?full"
    have b4: "broadcast ?deq = tl ps"
      using full by (simp add: exec_Dispatch_broadcast)
    have "0 < broadcast_cap"
      by (simp add: broadcast_cap_def)
    then have room: "length (broadcast ?deq) < broadcast_cap"
      using b4 h by simp
    have "subscriber ?deq = Consuming"
      using sub by (cases "broadcast ?full")
        (simp_all add: exec.simps handleMessages_empty handleMessages_Cons)
    from exec_Message_fields(1) [OF this room, of U p]
    have b5: "broadcast (run U [Dispatch order fails, Message p] ?full) = tl ps @ [p]"
      using b4 by simp
    from full b1 b2 b3 b4 b5 show ?thesis
      by (intro conjI)
  qed
  have cap: "broadcast_cap = 100"
    by (simp add: broadcast_cap_def)
  from cap chan inv block show ?thesis
    by (intro conjI impI) blast+
qed

theorem bounded_queue_backpressure_witness:
  "subscriber (exec (\<lambda>_. None) (Receive None) (start (\<lambda>_. []))) = Consuming
 \<and> broadcast (exec (\<lambda>_. None) (Receive None) (start (\<lambda>_. []))) = []
 \<and> length (replicate 100 ''x'') = broadcast_cap
 \<and> broadcast (run (\<lambda>_. None) (map Message (replicate 100 ''x''))
       (exec (\<lambda>_. None) (Receive None) (start (\<lambda>_. [])))) = replicate 100 ''x''
 \<and> consume (\<lambda>_. None) ''y'' (run (\<lambda>_. None) (map Message (replicate 100 ''x''))
       (exec (\<lambda>_. None) (Receive None) (start (\<lambda>_. [])))) = None
 \<and> consume (\<lambda>_. None) ''y'' (run (\<lambda>_. None) [Upgrade None, Message ''z'']
       (run (\<lambda>_. None) (map Message (replicate 100 ''x''))
          (exec (\<lambda>_. None) (Receive None) (start (\<lambda>_. []))))) = None
 \<and> broadcast (run (\<lambda>_. None) [Dispatch [] (\<lambda>c. False), Message ''y'']
       (run (\<lambda>_. None) (map Message (replicate 100 ''x''))
          (exec (\<lambda>_. None) (Receive None) (start (\<lambda>_. []))))) =
     tl (replicate 100 ''x'') @ [''y'']
 \<and> length (broadcast (run (\<lambda>_. None) [Message ''a'', Message ''b'', Dispatch [] (\<lambda>c. False)]
       (exec (\<lambda>_. None) (Receive None) (start (\<lambda>_. []))))) \<le> broadcast_cap
 \<and> chan_send 2 [''a''] ''b'' = Some [''a'', ''b'']
 \<and> chan_send 2 [''a'', ''b''] ''c'' = None"
proof -
  let ?U = "\<lambda>_ :: string. None :: trafficMessage option"
  let ?s = "exec ?U (Receive None) (start (\<lambda>_. []))"
  let ?ps = "replicate 100 ''x''"
  let ?evs = "[Message ''a'', Message ''b'', Dispatch [] (\<lambda>c. False)]"
  have sub: "subscriber ?s = Consuming" and q: "broadcast ?s = []"
    by (simp_all add: model_defs)
  have len: "length ?ps = broadcast_cap"
    by (simp add: broadcast_cap_def)
  have nodeq: "\<forall>order fails. Dispatch order fails \<notin> set [Upgrade None, Message ''z'']"
    by simp
  have bound: "length (broadcast ?s) \<le> broadcast_cap"
    unfolding q by simp
  note inst = bounded_queue_backpressure
    [of 2 "[''a'', ''b'']" "''c''" ?s ?U ?evs ?ps "''y''" "[Upgrade None, Message ''z'']"
        "[]" "\<lambda>c. False"]
  note blocked = inst [THEN conjunct2, THEN conjunct2, THEN conjunct2, THEN conjunct2,
      THEN conjunct2, THEN mp, OF conjI [OF sub conjI [OF q len]]]
  have c4: "broadcast (run ?U (map Message ?ps) ?s) = ?ps"
    by (rule blocked [THEN conjunct1])
  have c5: "consume ?U ''y'' (run ?U (map Message ?ps) ?s) = None"
    by (rule blocked [THEN conjunct2, THEN conjunct1])
  have c6: "consume ?U ''y'' (run ?U [Upgrade None, Message ''z'']
      (run ?U (map Message ?ps) ?s)) = None"
    by (rule blocked [THEN conjunct2, THEN conjunct2, THEN conjunct2, THEN conjunct1,
          THEN mp, OF nodeq])
  have c7: "broadcast (run ?U [Dispatch [] (\<lambda>c. False), Message ''y'']
      (run ?U (map Message ?ps) ?s)) = tl ?ps @ [''y'']"
    by (rule blocked [THEN conjunct2, THEN conjunct2, THEN conjunct2, THEN conjunct2,
          THEN conjunct2])
  have c8: "length (broadcast (run ?U ?evs ?s)) \<le> broadcast_cap"
    by (rule inst [THEN conjunct2, THEN conjunct2, THEN conjunct2, THEN conjunct2,
          THEN conjunct1, THEN mp, OF bound])
  have c9: "chan_send 2 [''a''] ''b'' = Some [''a'', ''b'']"
    using bounded_queue_backpressure [of 2 "[''a'']" "''b''"] by simp
  have c10: "chan_send 2 [''a'', ''b''] ''c'' = None"
    using inst [THEN conjunct2, THEN conjunct1] by simp
  from sub q len c4 c5 c6 c7 c8 c9 c10 show ?thesis
    by (intro conjI)
qed

lemma exec_Returned:
  assumes "subscriber st = Returned"
  shows "subscriber (exec U ev st) = Returned \<and> latest (exec U ev st) = latest st
       \<and> commands (exec U ev st) = commands st
       \<and> suffix (broadcast (exec U ev st)) (broadcast st)"
proof (cases ev)
  case (Dispatch order fails)
  have "suffix (tl (broadcast st)) (broadcast st)"
    by (cases "broadcast st") (simp_all add: suffix_ConsI)
  then show ?thesis
    using assms Dispatch exec_Dispatch_broadcast [of U order fails st]
    by (cases "broadcast st") (simp_all add: handleMessages_empty handleMessages_Cons)
qed (use assms in \<open>simp_all add: handleWebSocket_def readMessage_def split: option.split sum.split\<close>)

lemma run_Returned:
  "subscriber st = Returned \<Longrightarrow>
   subscriber (run U evs st) = Returned \<and> latest (run U evs st) = latest st
     \<and> commands (run U evs st) = commands st
     \<and> suffix (broadcast (run U evs st)) (broadcast st)"
proof (induction evs arbitrary: st)
  case Nil
  then show ?case by simp
next
  case (Cons ev evs)
  note step = exec_Returned [OF Cons.prems, of U ev]
  from Cons.IH [of "exec U ev st"] step
  have "subscriber (run U evs (exec U ev st)) = Returned"
    "latest (run U evs (exec U ev st)) = latest st"
    "commands (run U evs (exec U ev st)) = commands st"
    "suffix (broadcast (run U evs (exec U ev st))) (broadcast (exec U ev st))"
    by simp_all
  then show ?case
    using step suffix_order.trans by (simp del: exec.simps) blast
qed

text \<open>
  C8. A failed subscription ends the ingest loop and nothing else.  When the confirmation
  of the subscription is an error, the subscriber prints one error line and returns
  without touching the snapshot, the queue or the registry.  From then on it stays
  returned whatever the source delivers and whatever answer arrives later: no further
  command goes to Redis, so the subscription is not tried again, the snapshot keeps its
  value, and the queue only loses payloads to the dispatcher, none is added.
  The other goroutines take their steps as before: an upgraded connection is registered,
  and a handler whose read fails removes its connection.
\<close>

theorem subscription_failure_is_final:
  assumes "subscriber st = Subscribing"
  shows "exec U (Receive (Some err)) st =
           (errorLog ''Error receiving message from Redis: %v'' (command ''SUBSCRIBE'' st))
             \<lparr>subscriber := Returned\<rparr>
    \<and> stdout (exec U (Receive (Some err)) st) =
          stdout st @ [(ERROR, ''Error receiving message from Redis: %v'')]
    \<and> latest (exec U (Receive (Some err)) st) = latest st
    \<and> broadcast (exec U (Receive (Some err)) st) = broadcast st
    \<and> clients (exec U (Receive (Some err)) st) = clients st
    \<and> subscriber (run U evs (exec U (Receive (Some err)) st)) = Returned
    \<and> latest (run U evs (exec U (Receive (Some err)) st)) = latest st
    \<and> commands (run U evs (exec U (Receive (Some err)) st)) = commands st @ [''SUBSCRIBE'']
    \<and> suffix (broadcast (run U evs (exec U (Receive (Some err)) st))) (broadcast st)
    \<and> clients (exec U (Upgrade None) (exec U (Receive (Some err)) st)) =
          (clients st)(conns st \<mapsto> True)
    \<and> clients (exec U (ReadMessage conn (Inl err')) (exec U (Receive (Some err)) st)) =
          delete (clients st) conn"
proof -
  let ?st' = "exec U (Receive (Some err)) st"
  have step: "?st' =
      (errorLog ''Error receiving message from Redis: %v'' (command ''SUBSCRIBE'' st))
        \<lparr>subscriber := Returned\<rparr>"
    using assms by (simp add: subscribe_def)
  have fields: "stdout ?st' = stdout st @ [(ERROR, ''Error receiving message from Redis: %v'')]"
    "latest ?st' = latest st" "broadcast ?st' = broadcast st" "clients ?st' = clients st"
    "subscriber ?st' = Returned" "conns ?st' = conns st" "writes ?st' = writes st"
    "commands ?st' = commands st @ [''SUBSCRIBE'']"
    unfolding step by simp_all
  note later = run_Returned [OF fields(5), of U evs]
  have up: "clients (exec U (Upgrade None) ?st') = (clients st)(conns st \<mapsto> True)"
    using fields(4,6) by (simp add: handleWebSocket_def del: exec.simps(1))
  have rd: "clients (exec U (ReadMessage conn (Inl err')) ?st') = delete (clients st) conn"
    using fields(4) by (simp add: readMessage_def del: exec.simps(1))
  from step fields(1-4) later up rd show ?thesis
    using fields(2,3,8) by (simp del: exec.simps)
qed

theorem subscription_failure_is_final_witness:
  "subscriber (exec (\<lambda>_. None) (Upgrade None) (start (\<lambda>_. []))) = Subscribing
 \<and> stdout (run (\<lambda>_. None) [Upgrade None, Receive (Some ''timeout'')] (start (\<lambda>_. []))) =
     [(INFO, ''WebSocket connection established: %s''),
      (ERROR, ''Error receiving message from Redis: %v'')]
 \<and> subscriber (run (\<lambda>_. None)
       [Upgrade None, Receive (Some ''timeout''), Message ''m'', Receive None, Message ''n'']
       (start (\<lambda>_. []))) = Returned
 \<and> latest (run (\<lambda>_. None)
       [Upgrade None, Receive (Some ''timeout''), Message ''m'', Receive None, Message ''n'']
       (start (\<lambda>_. []))) = empty_latest
 \<and> broadcast (run (\<lambda>_. None)
       [Upgrade None, Receive (Some ''timeout''), Message ''m'', Receive None, Message ''n'']
       (start (\<lambda>_. []))) = []
 \<and> commands (run (\<lambda>_. None)
       [Upgrade None, Receive (Some ''timeout''), Message ''m'', Receive None, Message ''n'']
       (start (\<lambda>_. []))) = [''SUBSCRIBE'']
 \<and> clients (run (\<lambda>_. None) [Upgrade None, Receive (Some ''timeout''), Upgrade None]
       (start (\<lambda>_. []))) = [0 \<mapsto> True, 1 \<mapsto> True]"
proof -
  let ?U = "\<lambda>_ :: string. None :: trafficMessage option"
  let ?s = "exec ?U (Upgrade None) (start (\<lambda>_. []))"
  let ?evs = "[Message ''m'', Receive None, Message ''n'']"
  have sub: "subscriber ?s = Subscribing"
    by (simp add: model_defs)
  have s: "stdout ?s = [(INFO, ''WebSocket connection established: %s'')]"
    "latest ?s = empty_latest" "broadcast ?s = []" "clients ?s = [0 \<mapsto> True]" "conns ?s = 1"
    "commands ?s = []"
    by (simp_all add: model_defs)
  note inst = subscription_failure_is_final [OF sub, of ?U "''timeout''" ?evs]
  have c2: "stdout (exec ?U (Receive (Some ''timeout'')) ?s) =
      [(INFO, ''WebSocket connection established: %s''),
       (ERROR, ''Error receiving message from Redis: %v'')]"
    using inst [THEN conjunct2, THEN conjunct1] unfolding s by simp
  have c3: "subscriber (run ?U ?evs (exec ?U (Receive (Some ''timeout'')) ?s)) = Returned"
    by (rule inst [THEN conjunct2, THEN conjunct2, THEN conjunct2, THEN conjunct2,
          THEN conjunct2, THEN conjunct1])
  have c4: "latest (run ?U ?evs (exec ?U (Receive (Some ''timeout'')) ?s)) = empty_latest"
    using inst [THEN conjunct2, THEN conjunct2, THEN conjunct2, THEN conjunct2,
          THEN conjunct2, THEN conjunct2, THEN conjunct1] unfolding s by simp
  have c4': "commands (run ?U ?evs (exec ?U (Receive (Some ''timeout'')) ?s)) = [''SUBSCRIBE'']"
    using inst [THEN conjunct2, THEN conjunct2, THEN conjunct2, THEN conjunct2,
          THEN conjunct2, THEN conjunct2, THEN conjunct2, THEN conjunct1] unfolding s by simp
  have "suffix (broadcast (run ?U ?evs (exec ?U (Receive (Some ''timeout'')) ?s))) (broadcast ?s)"
    by (rule inst [THEN conjunct2, THEN conjunct2, THEN conjunct2, THEN conjunct2,
          THEN conjunct2, THEN conjunct2, THEN conjunct2, THEN conjunct2, THEN conjunct1])
  then have c5: "broadcast (run ?U ?evs (exec ?U (Receive (Some ''timeout'')) ?s)) = []"
    unfolding s by simp
  have c6: "clients (exec ?U (Upgrade None) (exec ?U (Receive (Some ''timeout'')) ?s)) =
      [0 \<mapsto> True, 1 \<mapsto> True]"
    using inst [THEN conjunct2, THEN conjunct2, THEN conjunct2, THEN conjunct2,
          THEN conjunct2, THEN conjunct2, THEN conjunct2, THEN conjunct2, THEN conjunct2,
          THEN conjunct1]
    unfolding s by simp
  from sub c2 c3 c4 c5 c4' c6 show ?thesis
    by (simp only: run.simps)
qed

lemma initializeEmptyLatest_fields [simp]:
  "latest (initializeEmptyLatest st) = empty_latest"
  "config (initializeEmptyLatest st) = config st"
  "clients (initializeEmptyLatest st) = clients st"
  "broadcast (initializeEmptyLatest st) = broadcast st"
  "subscriber (initializeEmptyLatest st) = subscriber st"
  "conns (initializeEmptyLatest st) = conns st"
  "writes (initializeEmptyLatest st) = writes st"
  "commands (initializeEmptyLatest st) = commands st"
  by (simp_all add: initializeEmptyLatest_def)

lemma createIndexIfNotExists_cases:
  "createIndexIfNotExists rdb st =
     (if FTInfo rdb = None
      then (None, debugLog ''Index 'idx:packets' already exists'' (command ''FT.INFO'' st))
      else if FTCreate rdb = None
      then (None, infoLog ''Index 'idx:packets' created successfully''
                    (command ''FT.CREATE'' (command ''FT.INFO'' st)))
      else (FTCreate rdb, command ''FT.CREATE'' (command ''FT.INFO'' st)))"
  by (auto simp add: createIndexIfNotExists_def Let_def split: option.split)

lemma createIndexIfNotExists_error:
  "FTInfo rdb \<noteq> None \<Longrightarrow> FTCreate rdb \<noteq> None \<Longrightarrow>
   \<exists>err st'. createIndexIfNotExists rdb st = (Some err, st') \<and> latest st' = latest st
     \<and> clients st' = clients st \<and> broadcast st' = broadcast st
     \<and> subscriber st' = subscriber st \<and> commands st' = commands st @ index_commands rdb"
  by (auto simp add: createIndexIfNotExists_cases index_commands_def)

lemma createIndexIfNotExists_ok:
  "FTInfo rdb = None \<or> FTCreate rdb = None \<Longrightarrow>
   \<exists>st'. createIndexIfNotExists rdb st = (None, st') \<and> latest st' = latest st
     \<and> clients st' = clients st \<and> broadcast st' = broadcast st
     \<and> subscriber st' = subscriber st \<and> commands st' = commands st @ index_commands rdb"
  by (auto simp add: createIndexIfNotExists_cases index_commands_def)


text \<open>
  The fallback of startup reconstruction, as far as it goes.  When the index cannot be
  created, when the aggregation returns an error or no row, when the maximum timestamp
  of the first row is nil or a string for which \<^verbatim>\<open>Sscanf\<close> reports an error or no item,
  or when the search returns an error, \<^verbatim>\<open>initializeLatestData\<close> returns with the
  snapshot set to the empty snapshot (timestamp 0, count 0, no events); every command
  was sent to Redis once, up to the one that failed, and none again.  When every step
  succeeds, the snapshot holds the scanned timestamp, the number of documents found as
  its count, and one event for each document, in order.
\<close>

theorem startup_fallback:
  "(FTInfo rdb \<noteq> None \<and> FTCreate rdb \<noteq> None \<longrightarrow>
      falls_back st [''FT.INFO'', ''FT.CREATE''] (initializeLatestData Sscanf rdb st))
 \<and> ((FTInfo rdb = None \<or> FTCreate rdb = None) \<and> FTAggregate rdb = Inl err \<longrightarrow>
      falls_back st (index_commands rdb @ [''FT.AGGREGATE''])
        (initializeLatestData Sscanf rdb st))
 \<and> ((FTInfo rdb = None \<or> FTCreate rdb = None) \<and> FTAggregate rdb = Inr [] \<longrightarrow>
      falls_back st (index_commands rdb @ [''FT.AGGREGATE''])
        (initializeLatestData Sscanf rdb st))
 \<and> ((FTInfo rdb = None \<or> FTCreate rdb = None) \<and> FTAggregate rdb = Inr (row # rows)
      \<and> row ''max_timestamp'' = NilValue \<longrightarrow>
      falls_back st (index_commands rdb @ [''FT.AGGREGATE''])
        (initializeLatestData Sscanf rdb st))
 \<and> ((FTInfo rdb = None \<or> FTCreate rdb = None) \<and> FTAggregate rdb = Inr (row # rows)
      \<and> row ''max_timestamp'' = StringValue s \<and> Sscanf s = (n, e, t) \<and> (e \<noteq> None \<or> n \<noteq> 1) \<longrightarrow>
      falls_back st (index_commands rdb @ [''FT.AGGREGATE''])
        (initializeLatestData Sscanf rdb st))
 \<and> ((FTInfo rdb = None \<or> FTCreate rdb = None) \<and> FTAggregate rdb = Inr (row # rows)
      \<and> row ''max_timestamp'' = StringValue s \<and> Sscanf s = (1, None, t)
      \<and> FTSearch rdb t = Inl err \<longrightarrow>
      falls_back st (index_commands rdb @ [''FT.AGGREGATE'', ''FT.SEARCH''])
        (initializeLatestData Sscanf rdb st))
 \<and> ((FTInfo rdb = None \<or> FTCreate rdb = None) \<and> FTAggregate rdb = Inr (row # rows)
      \<and> row ''max_timestamp'' = StringValue s \<and> Sscanf s = (1, None, t)
      \<and> FTSearch rdb t = Inr docs \<longrightarrow>
      (case initializeLatestData Sscanf rdb st of
         Panic \<Rightarrow> False
       | Return st' \<Rightarrow>
           latest st' =
             \<lparr>latestData.Timestamp = t, PacketCount = len docs, Packets = map PacketData docs\<rparr>
           \<and> length (latestData.Packets (latest st')) = length docs
           \<and> commands st' = commands st @ index_commands rdb @ [''FT.AGGREGATE'', ''FT.SEARCH'']))"
proof -
  have index_fails: "falls_back st [''FT.INFO'', ''FT.CREATE''] (initializeLatestData Sscanf rdb st)"
    if "FTInfo rdb \<noteq> None \<and> FTCreate rdb \<noteq> None"
    using that
    by (auto simp add: initializeLatestData_def createIndexIfNotExists_cases falls_back_def)
  have index_ok: "createIndexIfNotExists rdb st =
      (None, if FTInfo rdb = None
             then debugLog ''Index 'idx:packets' already exists'' (command ''FT.INFO'' st)
             else infoLog ''Index 'idx:packets' created successfully''
                    (command ''FT.CREATE'' (command ''FT.INFO'' st)))"
    if "FTInfo rdb = None \<or> FTCreate rdb = None"
    using that by (auto simp add: createIndexIfNotExists_cases)
  have agg_error: "falls_back st (index_commands rdb @ [''FT.AGGREGATE''])
        (initializeLatestData Sscanf rdb st)"
    if "(FTInfo rdb = None \<or> FTCreate rdb = None) \<and> FTAggregate rdb = Inl err"
    using that index_ok
    by (simp add: initializeLatestData_def falls_back_def index_commands_def Let_def)
  have no_rows: "falls_back st (index_commands rdb @ [''FT.AGGREGATE''])
        (initializeLatestData Sscanf rdb st)"
    if "(FTInfo rdb = None \<or> FTCreate rdb = None) \<and> FTAggregate rdb = Inr []"
    using that index_ok
    by (simp add: initializeLatestData_def falls_back_def index_commands_def Let_def)
  have nil: "falls_back st (index_commands rdb @ [''FT.AGGREGATE''])
        (initializeLatestData Sscanf rdb st)"
    if "(FTInfo rdb = None \<or> FTCreate rdb = None) \<and> FTAggregate rdb = Inr (row # rows)
      \<and> row ''max_timestamp'' = NilValue"
    using that index_ok
    by (simp add: initializeLatestData_def falls_back_def index_commands_def Let_def)
  have malformed: "falls_back st (index_commands rdb @ [''FT.AGGREGATE''])
        (initializeLatestData Sscanf rdb st)"
    if "(FTInfo rdb = None \<or> FTCreate rdb = None) \<and> FTAggregate rdb = Inr (row # rows)
      \<and> row ''max_timestamp'' = StringValue s \<and> Sscanf s = (n, e, t) \<and> (e \<noteq> None \<or> n \<noteq> 1)"
    using that index_ok
    by (auto simp add: initializeLatestData_def falls_back_def index_commands_def Let_def)
  have search_error: "falls_back st (index_commands rdb @ [''FT.AGGREGATE'', ''FT.SEARCH''])
        (initializeLatestData Sscanf rdb st)"
    if "(FTInfo rdb = None \<or> FTCreate rdb = None) \<and> FTAggregate rdb = Inr (row # rows)
      \<and> row ''max_timestamp'' = StringValue s \<and> Sscanf s = (1, None, t)
      \<and> FTSearch rdb t = Inl err"
    using that index_ok
    by (simp add: initializeLatestData_def falls_back_def index_commands_def Let_def)
  have success: "(case initializeLatestData Sscanf rdb st of
         Panic \<Rightarrow> False
       | Return st' \<Rightarrow>
           latest st' =
             \<lparr>latestData.Timestamp = t, PacketCount = len docs, Packets = map PacketData docs\<rparr>
           \<and> length (latestData.Packets (latest st')) = length docs
           \<and> commands st' = commands st @ index_commands rdb @ [''FT.AGGREGATE'', ''FT.SEARCH''])"
    if "(FTInfo rdb = None \<or> FTCreate rdb = None) \<and> FTAggregate rdb = Inr (row # rows)
      \<and> row ''max_timestamp'' = StringValue s \<and> Sscanf s = (1, None, t)
      \<and> FTSearch rdb t = Inr docs"
    using that index_ok
    by (simp add: initializeLatestData_def index_commands_def Let_def)
  from index_fails agg_error no_rows nil malformed search_error success show ?thesis
    by (intro conjI impI)
qed

text \<open>
  The one reply not covered above: a maximum timestamp that is neither nil nor a string
  fails the type assertion of line 104.  The client is created with protocol 2
  (main.go), under which the value of a reducer arrives as a bulk string or as nil.
\<close>

lemma initializeLatestData_type_assertion:
  "(FTInfo rdb = None \<or> FTCreate rdb = None) \<Longrightarrow> FTAggregate rdb = Inr (row # rows) \<Longrightarrow>
   row ''max_timestamp'' = OtherValue \<Longrightarrow> initializeLatestData Sscanf rdb st = Panic"
  by (auto simp add: initializeLatestData_def createIndexIfNotExists_cases Let_def)

theorem startup_fallback_witness:
  "falls_back (start (\<lambda>_. [])) [''FT.INFO'', ''FT.CREATE'']
     (initializeLatestData example_Sscanf
        \<lparr>FTInfo = Some ''unknown index name'', FTCreate = Some ''unknown command'',
          FTAggregate = Inr [],
          FTSearch = (\<lambda>t. Inr example_docs)\<rparr>
        (start (\<lambda>_. [])))
 \<and> falls_back (start (\<lambda>_. [])) [''FT.INFO'', ''FT.AGGREGATE'']
     (initializeLatestData example_Sscanf
        \<lparr>FTInfo = None, FTCreate = None,
          FTAggregate = Inl ''timeout'',
          FTSearch = (\<lambda>t. Inr example_docs)\<rparr>
        (start (\<lambda>_. [])))
 \<and> falls_back (start (\<lambda>_. [])) [''FT.INFO'', ''FT.CREATE'', ''FT.AGGREGATE'']
     (initializeLatestData example_Sscanf
        \<lparr>FTInfo = Some ''unknown index name'', FTCreate = None,
          FTAggregate = Inr [],
          FTSearch = (\<lambda>t. Inr example_docs)\<rparr>
        (start (\<lambda>_. [])))
 \<and> falls_back (start (\<lambda>_. [])) [''FT.INFO'', ''FT.AGGREGATE'']
     (initializeLatestData example_Sscanf
        \<lparr>FTInfo = None, FTCreate = None,
          FTAggregate = Inr [example_row NilValue],
          FTSearch = (\<lambda>t. Inr example_docs)\<rparr>
        (start (\<lambda>_. [])))
 \<and> falls_back (start (\<lambda>_. [])) [''FT.INFO'', ''FT.AGGREGATE'']
     (initializeLatestData example_Sscanf
        \<lparr>FTInfo = None, FTCreate = None,
          FTAggregate = Inr [example_row (StringValue ''n/a'')],
          FTSearch = (\<lambda>t. Inr example_docs)\<rparr>
        (start (\<lambda>_. [])))
 \<and> falls_back (start (\<lambda>_. [])) [''FT.INFO'', ''FT.AGGREGATE'', ''FT.SEARCH'']
     (initializeLatestData example_Sscanf
        \<lparr>FTInfo = None, FTCreate = None,
          FTAggregate = Inr [example_row (StringValue ''1700000000'')],
          FTSearch = (\<lambda>t. Inl ''connection reset'')\<rparr>
        (start (\<lambda>_. [])))
 \<and> map_outcome latest
     (initializeLatestData example_Sscanf
        \<lparr>FTInfo = None, FTCreate = None,
          FTAggregate = Inr [example_row (StringValue ''1700000000'')],
          FTSearch = (\<lambda>t. Inr example_docs)\<rparr>
        (start (\<lambda>_. []))) =
   Return \<lparr>latestData.Timestamp = 1700000000, PacketCount = 2,
           Packets = map PacketData example_docs\<rparr>
 \<and> map_outcome commands
     (initializeLatestData example_Sscanf
        \<lparr>FTInfo = None, FTCreate = None,
          FTAggregate = Inr [example_row (StringValue ''1700000000'')],
          FTSearch = (\<lambda>t. Inr example_docs)\<rparr>
        (start (\<lambda>_. []))) =
   Return [''FT.INFO'', ''FT.AGGREGATE'', ''FT.SEARCH'']"
proof -
  let ?st = "(start (\<lambda>_. []))"
  let ?r1 = "\<lparr>FTInfo = Some ''unknown index name'', FTCreate = Some ''unknown command'',
       FTAggregate = Inr [],
       FTSearch = (\<lambda>t. Inr example_docs)\<rparr>"
  have c1: "falls_back ?st [''FT.INFO'', ''FT.CREATE'']
      (initializeLatestData example_Sscanf ?r1 ?st)"
    using startup_fallback [where rdb = ?r1 and st = ?st and Sscanf = example_Sscanf,
        THEN conjunct1]
    by (simp add: index_commands_def example_Sscanf_def example_row_def)
  let ?r2 = "\<lparr>FTInfo = None, FTCreate = None,
       FTAggregate = Inl ''timeout'',
       FTSearch = (\<lambda>t. Inr example_docs)\<rparr>"
  have c2: "falls_back ?st [''FT.INFO'', ''FT.AGGREGATE'']
      (initializeLatestData example_Sscanf ?r2 ?st)"
    using startup_fallback [where rdb = ?r2 and st = ?st and Sscanf = example_Sscanf and err = "''timeout''",
        THEN conjunct2, THEN conjunct1]
    by (simp add: index_commands_def example_Sscanf_def example_row_def)
  let ?r3 = "\<lparr>FTInfo = Some ''unknown index name'', FTCreate = None,
       FTAggregate = Inr [],
       FTSearch = (\<lambda>t. Inr example_docs)\<rparr>"
  have c3: "falls_back ?st [''FT.INFO'', ''FT.CREATE'', ''FT.AGGREGATE'']
      (initializeLatestData example_Sscanf ?r3 ?st)"
    using startup_fallback [where rdb = ?r3 and st = ?st and Sscanf = example_Sscanf,
        THEN conjunct2, THEN conjunct2, THEN conjunct1]
    by (simp add: index_commands_def example_Sscanf_def example_row_def)
  let ?r4 = "\<lparr>FTInfo = None, FTCreate = None,
       FTAggregate = Inr [example_row NilValue],
       FTSearch = (\<lambda>t. Inr example_docs)\<rparr>"
  have c4: "falls_back ?st [''FT.INFO'', ''FT.AGGREGATE'']
      (initializeLatestData example_Sscanf ?r4 ?st)"
    using startup_fallback [where rdb = ?r4 and st = ?st and Sscanf = example_Sscanf
        and row = "example_row NilValue" and rows = "[]",
        THEN conjunct2, THEN conjunct2, THEN conjunct2, THEN conjunct1]
    by (simp add: index_commands_def example_Sscanf_def example_row_def)
  let ?r5 = "\<lparr>FTInfo = None, FTCreate = None,
       FTAggregate = Inr [example_row (StringValue ''n/a'')],
       FTSearch = (\<lambda>t. Inr example_docs)\<rparr>"
  have c5: "falls_back ?st [''FT.INFO'', ''FT.AGGREGATE'']
      (initializeLatestData example_Sscanf ?r5 ?st)"
    using startup_fallback [where rdb = ?r5 and st = ?st and Sscanf = example_Sscanf
        and row = "example_row (StringValue ''n/a'')" and rows = "[]" and s = "''n/a''"
        and n = 0 and e = "Some ''expected integer''" and t = 0,
        THEN conjunct2, THEN conjunct2, THEN conjunct2, THEN conjunct2, THEN conjunct1]
    by (simp add: index_commands_def example_Sscanf_def example_row_def)
  let ?r6 = "\<lparr>FTInfo = None, FTCreate = None,
       FTAggregate = Inr [example_row (StringValue ''1700000000'')],
       FTSearch = (\<lambda>t. Inl ''connection reset'')\<rparr>"
  have c6: "falls_back ?st [''FT.INFO'', ''FT.AGGREGATE'', ''FT.SEARCH'']
      (initializeLatestData example_Sscanf ?r6 ?st)"
    using startup_fallback [where rdb = ?r6 and st = ?st and Sscanf = example_Sscanf
        and row = "example_row (StringValue ''1700000000'')" and rows = "[]"
        and s = "''1700000000''" and t = 1700000000 and err = "''connection reset''",
        THEN conjunct2, THEN conjunct2, THEN conjunct2, THEN conjunct2, THEN conjunct2, THEN conjunct1]
    by (simp add: index_commands_def example_Sscanf_def example_row_def)
  let ?r7 = "\<lparr>FTInfo = None, FTCreate = None,
       FTAggregate = Inr [example_row (StringValue ''1700000000'')],
       FTSearch = (\<lambda>t. Inr example_docs)\<rparr>"
  have ok: "case initializeLatestData example_Sscanf ?r7 ?st of
         Panic \<Rightarrow> False
       | Return st' \<Rightarrow>
           latest st' =
             \<lparr>latestData.Timestamp = 1700000000, PacketCount = len example_docs,
              Packets = map PacketData example_docs\<rparr>
           \<and> length (latestData.Packets (latest st')) = length example_docs
           \<and> commands st' =
               commands ?st @ index_commands ?r7 @ [''FT.AGGREGATE'', ''FT.SEARCH'']"
    using startup_fallback [where rdb = ?r7 and st = ?st and Sscanf = example_Sscanf
        and row = "example_row (StringValue ''1700000000'')" and rows = "[]"
        and s = "''1700000000''" and t = 1700000000 and docs = example_docs,
        THEN conjunct2, THEN conjunct2, THEN conjunct2, THEN conjunct2,
        THEN conjunct2, THEN conjunct2]
    by (simp add: example_Sscanf_def example_row_def)
  have c7: "map_outcome latest (initializeLatestData example_Sscanf ?r7 ?st) =
     Return \<lparr>latestData.Timestamp = 1700000000, PacketCount = 2,
             Packets = map PacketData example_docs\<rparr>"
    using ok by (cases "initializeLatestData example_Sscanf ?r7 ?st")
      (simp_all add: len_def example_docs_def)
  have c8: "map_outcome commands (initializeLatestData example_Sscanf ?r7 ?st) =
     Return [''FT.INFO'', ''FT.AGGREGATE'', ''FT.SEARCH'']"
    using ok by (cases "initializeLatestData example_Sscanf ?r7 ?st")
      (simp_all add: index_commands_def start_def)
  from c1 c2 c3 c4 c5 c6 c7 c8 show ?thesis
    by (intro conjI)
qed

lemma set_int_in_range:
  "- (2 ^ 63) \<le> i \<Longrightarrow> i < 2 ^ 63 \<Longrightarrow> set_int (JInt i) old = Some (word_of_int i)"
  by (simp add: set_int_def)

lemma find_field_tags [simp]:
  "find_field foldName ''packet_count'' = Some PacketCount_field"
  "find_field foldName ''timestamp'' = Some Timestamp_field"
  "find_field foldName ''packets'' = Some Packets_field"
  by (simp_all add: find_field_def)

lemma inconsistent_message:
  assumes "consistent S" and "trafficMessage.PacketCount M \<noteq> len (trafficMessage.Packets M)"
  shows "\<not> consistent (update_latest S M)"
  using assms by (simp add: consistent_def update_latest_def len_append)

text \<open>
  C10. Decoding does not validate.  A JSON object with an integer timestamp and an
  integer count decodes successfully whether it has no \<^verbatim>\<open>packets\<close> member, in which case
  the events are empty, or a \<^verbatim>\<open>packets\<close> array of any length, whatever the count says;
  the empty object decodes to the zero message.  The ingest loop merges whatever the
  decoder returns without any check, and merging a message whose count is not the
  length of its events into a consistent snapshot always gives a snapshot whose count is
  not the length of its events.  So a payload that scans as an object with a timestamp
  and the count 3 and nothing else, consumed in a state with a consistent snapshot,
  leaves a snapshot that is not consistent.
\<close>

theorem decoding_does_not_validate:
  "(- (2 ^ 63) \<le> t \<and> t < 2 ^ 63 \<and> - (2 ^ 63) \<le> n \<and> n < 2 ^ 63 \<longrightarrow>
      unmarshal foldName (JObject [(''timestamp'', JInt t), (''packet_count'', JInt n)]) =
        Some \<lparr>trafficMessage.PacketCount = word_of_int n, Timestamp = word_of_int t,
              Packets = []\<rparr>
    \<and> unmarshal foldName
        (JObject [(''timestamp'', JInt t), (''packet_count'', JInt n),
                  (''packets'', JArray items)]) =
        Some \<lparr>trafficMessage.PacketCount = word_of_int n, Timestamp = word_of_int t,
              Packets = map Decoded items\<rparr>)
 \<and> unmarshal foldName (JObject []) =
      Some \<lparr>trafficMessage.PacketCount = 0, Timestamp = 0, Packets = []\<rparr>
 \<and> (subscriber st = Consuming \<and> length (broadcast st) < broadcast_cap
      \<and> Unmarshal raw = Some M \<longrightarrow>
      latest (exec Unmarshal (Message raw) st) = update_latest (latest st) M)
 \<and> (consistent S \<and> trafficMessage.PacketCount M \<noteq> len (trafficMessage.Packets M) \<longrightarrow>
      \<not> consistent (update_latest S M))
 \<and> (subscriber st = Consuming \<and> length (broadcast st) < broadcast_cap
      \<and> consistent (latest st)
      \<and> scan raw = Some (JObject [(''timestamp'', JInt 5), (''packet_count'', JInt 3)]) \<longrightarrow>
      \<not> consistent (latest (exec (json_Unmarshal scan foldName) (Message raw) st)))"
proof -
  note exec.simps [simp del]
  have decode: "unmarshal foldName (JObject [(''timestamp'', JInt t), (''packet_count'', JInt n)]) =
        Some \<lparr>trafficMessage.PacketCount = word_of_int n, Timestamp = word_of_int t,
              Packets = []\<rparr>
    \<and> unmarshal foldName
        (JObject [(''timestamp'', JInt t), (''packet_count'', JInt n),
                  (''packets'', JArray items)]) =
        Some \<lparr>trafficMessage.PacketCount = word_of_int n, Timestamp = word_of_int t,
              Packets = map Decoded items\<rparr>"
    if "- (2 ^ 63) \<le> t \<and> t < 2 ^ 63 \<and> - (2 ^ 63) \<le> n \<and> n < 2 ^ 63" for t n
    using that
    by (simp add: unmarshal_def set_field_def set_int_in_range set_slice_def zero_message_def)
  have empty: "unmarshal foldName (JObject []) =
      Some \<lparr>trafficMessage.PacketCount = 0, Timestamp = 0, Packets = []\<rparr>"
    by (simp add: unmarshal_def zero_message_def)
  have merged: "latest (exec Unmarshal (Message raw) st) = update_latest (latest st) M"
    if "subscriber st = Consuming \<and> length (broadcast st) < broadcast_cap
      \<and> Unmarshal raw = Some M" for Unmarshal M
    using that exec_Message_fields(2) [of st Unmarshal raw] by simp
  have five: "unmarshal foldName (JObject [(''timestamp'', JInt 5), (''packet_count'', JInt 3)]) =
      Some \<lparr>trafficMessage.PacketCount = 3, Timestamp = 5, Packets = []\<rparr>"
    using decode [of 5 3] by simp
  have bad: "\<not> consistent (latest (exec (json_Unmarshal scan foldName) (Message raw) st))"
    if h: "subscriber st = Consuming \<and> length (broadcast st) < broadcast_cap
      \<and> consistent (latest st)
      \<and> scan raw = Some (JObject [(''timestamp'', JInt 5), (''packet_count'', JInt 3)])"
  proof -
    let ?M = "\<lparr>trafficMessage.PacketCount = 3, Timestamp = 5, Packets = []\<rparr>"
    have "json_Unmarshal scan foldName raw = Some ?M"
      using h five by (simp add: json_Unmarshal_def)
    with h merged [of "json_Unmarshal scan foldName" ?M]
    have "latest (exec (json_Unmarshal scan foldName) (Message raw) st) =
        update_latest (latest st) ?M"
      by simp
    moreover have "\<not> consistent (update_latest (latest st) ?M)"
      using h by (intro inconsistent_message) (simp_all add: len_def)
    ultimately show ?thesis by simp
  qed
  from decode [of t n] empty merged [of Unmarshal M] inconsistent_message [of S M] bad
  show ?thesis
    by (intro conjI impI) blast+
qed

theorem decoding_does_not_validate_witness:
  "unmarshal id
     (JObject [(''timestamp'', JInt 5), (''packet_count'', JInt 7),
               (''packets'', JArray [JObject []])]) =
     Some \<lparr>trafficMessage.PacketCount = 7, Timestamp = 5, Packets = [Decoded (JObject [])]\<rparr>
 \<and> json_Unmarshal example_scan id ''{\"timestamp\":5,\"packet_count\":3}'' =
     Some \<lparr>trafficMessage.PacketCount = 3, Timestamp = 5, Packets = []\<rparr>
 \<and> consistent (latest (exec (json_Unmarshal example_scan id) (Receive None) (start (\<lambda>_. []))))
 \<and> latest (run (json_Unmarshal example_scan id)
       [Receive None, Message ''{\"timestamp\":5,\"packet_count\":3}''] (start (\<lambda>_. []))) =
     \<lparr>latestData.Timestamp = 5, PacketCount = 3, Packets = []\<rparr>
 \<and> \<not> consistent (latest (run (json_Unmarshal example_scan id)
       [Receive None, Message ''{\"timestamp\":5,\"packet_count\":3}''] (start (\<lambda>_. []))))"
proof -
  let ?U = "json_Unmarshal example_scan id"
  let ?raw = "''{\"timestamp\":5,\"packet_count\":3}''"
  let ?s = "exec ?U (Receive None) (start (\<lambda>_. []))"
  let ?M = "\<lparr>trafficMessage.PacketCount = 3, Timestamp = 5, Packets = []\<rparr>"
  note inst = decoding_does_not_validate
    [where t = 5 and n = 7 and foldName = id and items = "[JObject []]" and st = ?s
       and Unmarshal = ?U and raw = ?raw and M = ?M and scan = example_scan]
  have c1: "unmarshal id
     (JObject [(''timestamp'', JInt 5), (''packet_count'', JInt 7),
               (''packets'', JArray [JObject []])]) =
     Some \<lparr>trafficMessage.PacketCount = 7, Timestamp = 5, Packets = [Decoded (JObject [])]\<rparr>"
    using inst [THEN conjunct1] by simp
  have c2: "?U ?raw = Some ?M"
    using decoding_does_not_validate [where t = 5 and n = 3 and foldName = id, THEN conjunct1]
    by (simp add: json_Unmarshal_def example_scan_def)
  have sub: "subscriber ?s = Consuming" and room: "length (broadcast ?s) < broadcast_cap"
    and l: "latest ?s = empty_latest"
    by (simp_all add: model_defs)
  have c3: "consistent (latest ?s)"
    unfolding l by (simp add: consistent_def empty_latest_def len_def)
  have sc: "example_scan ?raw =
      Some (JObject [(''timestamp'', JInt 5), (''packet_count'', JInt 3)])"
    by (simp add: example_scan_def)
  have "latest (exec ?U (Message ?raw) ?s) = update_latest (latest ?s) ?M"
    by (rule inst [THEN conjunct2, THEN conjunct2, THEN conjunct1, THEN mp,
          OF conjI [OF sub conjI [OF room c2]]])
  then have c4: "latest (run ?U [Receive None, Message ?raw] (start (\<lambda>_. []))) =
      \<lparr>latestData.Timestamp = 5, PacketCount = 3, Packets = []\<rparr>"
    unfolding l by (simp add: update_latest_empty del: exec.simps)
  have "\<not> consistent (latest (exec ?U (Message ?raw) ?s))"
    by (rule inst [THEN conjunct2, THEN conjunct2, THEN conjunct2, THEN conjunct2, THEN mp,
          OF conjI [OF sub conjI [OF room conjI [OF c3 sc]]]])
  then have c5: "\<not> consistent (latest (run ?U [Receive None, Message ?raw] (start (\<lambda>_. []))))"
    by (simp del: exec.simps)
  from c1 c2 c3 c4 c5 show ?thesis
    by (intro conjI)
qed

section \<open>The registry holds upgraded connections only\<close>

text \<open>
  Only upgraded connections are ever registered: the hypothesis of the theorem on delivery
  holds in the initial state and is kept by every step.
\<close>

lemma exec_registered:
  assumes "\<forall>c. clients st c \<noteq> None \<longrightarrow> c < conns st"
  shows "\<forall>c. clients (exec U ev st) c \<noteq> None \<longrightarrow> c < conns (exec U ev st)"
proof (cases ev)
  case (Receive err)
  then show ?thesis using assms by (simp add: subscribe_def Let_def split: option.split)
next
  case (Message payload)
  show ?thesis
  proof (cases "subscriber st = Consuming \<and> length (broadcast st) < broadcast_cap")
    case True
    then show ?thesis
      using assms Message exec_Message_fields(4,6) [of st U payload]
      by (simp del: exec.simps)
  next
    case False
    then show ?thesis
      using assms Message consume_full [of st U payload] by auto
  qed
next
  case ChannelClosed
  then show ?thesis using assms by simp
next
  case (Dispatch order fails)
  show ?thesis
  proof (cases "broadcast st")
    case Nil
    then show ?thesis using assms Dispatch by (simp add: handleMessages_empty)
  next
    case (Cons msg rest)
    have "clients (send_each msg fails order (st\<lparr>broadcast := rest\<rparr>)) c \<noteq> None \<longrightarrow>
        clients st c \<noteq> None" for c
      using send_each_unregistered [of "st\<lparr>broadcast := rest\<rparr>" c msg fails order]
      by (cases "clients st c") simp_all
    then show ?thesis
      using assms Dispatch Cons by (auto simp add: handleMessages_Cons)
  qed
next
  case (Upgrade err)
  then show ?thesis
    using assms by (auto simp add: handleWebSocket_def less_Suc_eq split: option.split)
next
  case (ReadMessage conn r)
  then show ?thesis
    using assms by (auto simp add: readMessage_def delete_def split: sum.split)
qed

lemma run_registered:
  "\<forall>c. clients st c \<noteq> None \<longrightarrow> c < conns st \<Longrightarrow>
   \<forall>c. clients (run U evs st) c \<noteq> None \<longrightarrow> c < conns (run U evs st)"
proof (induction evs arbitrary: st)
  case Nil
  then show ?case by simp
next
  case (Cons ev evs)
  from Cons.IH [OF exec_registered [OF Cons.prems, of U ev]] show ?case
    by (simp del: exec.simps)
qed

lemma start_registered:
  "\<forall>c. clients (run U evs (start env)) c \<noteq> None \<longrightarrow> c < conns (run U evs (start env))"
  by (rule run_registered) (simp add: start_def)

section \<open>Where startup reconstruction departs from the fallback\<close>

text \<open>
  C6. Startup reconstruction does not fall back on every malformed maximum timestamp.
  The claim is that a malformed maximum timestamp, like every other failure, leaves the
  empty snapshot, that no failure is fatal, and that on success the snapshot holds the
  records at the maximum timestamp.  The code decides by the answer of \<^verbatim>\<open>Sscanf\<close> alone
  and looks at the first row alone: whenever \<^verbatim>\<open>Sscanf\<close> reports one item and no error
  for the string of the first row, whatever follows the integer in that string and
  whatever the other rows say, the snapshot holds the scanned timestamp and the documents
  found there; and a value that is neither nil nor a string makes the function panic.
  So at the maximum timestamp \<^verbatim>\<open>"17abc"\<close> the snapshot is at 17 and not empty, and with
  a row for 5 before a row for 9 the snapshot is at 5.
\<close>

theorem startup_trusts_scan_and_first_row:
  "((FTInfo rdb = None \<or> FTCreate rdb = None) \<and> FTAggregate rdb = Inr (row # rows)
      \<and> row ''max_timestamp'' = StringValue s \<and> Sscanf s = (1, None, t)
      \<and> FTSearch rdb t = Inr docs \<longrightarrow>
      map_outcome latest (initializeLatestData Sscanf rdb st) =
        Return \<lparr>latestData.Timestamp = t, PacketCount = len docs,
                Packets = map PacketData docs\<rparr>)
 \<and> ((FTInfo rdb = None \<or> FTCreate rdb = None) \<and> FTAggregate rdb = Inr (row # rows)
      \<and> row ''max_timestamp'' = OtherValue \<longrightarrow>
      initializeLatestData Sscanf rdb st = Panic)"
proof -
  have stored: "map_outcome latest (initializeLatestData Sscanf rdb st) =
        Return \<lparr>latestData.Timestamp = t, PacketCount = len docs,
                Packets = map PacketData docs\<rparr>"
    if "(FTInfo rdb = None \<or> FTCreate rdb = None) \<and> FTAggregate rdb = Inr (row # rows)
      \<and> row ''max_timestamp'' = StringValue s \<and> Sscanf s = (1, None, t)
      \<and> FTSearch rdb t = Inr docs"
    using that
    by (auto simp add: initializeLatestData_def createIndexIfNotExists_cases Let_def)
  have panics: "initializeLatestData Sscanf rdb st = Panic"
    if "(FTInfo rdb = None \<or> FTCreate rdb = None) \<and> FTAggregate rdb = Inr (row # rows)
      \<and> row ''max_timestamp'' = OtherValue"
    using that initializeLatestData_type_assertion [of rdb row rows Sscanf st] by blast
  from stored panics show ?thesis
    by (intro conjI impI)
qed

theorem startup_trusts_scan_and_first_row_witness:
  "observed_Sscanf ''17abc'' = (1, None, 17)
 \<and> map_outcome latest
     (initializeLatestData observed_Sscanf
        \<lparr>FTInfo = None, FTCreate = None,
          FTAggregate = Inr [example_row (StringValue ''17abc'')],
          FTSearch = (\<lambda>t. Inr example_docs)\<rparr>
        (start (\<lambda>_. []))) =
   Return \<lparr>latestData.Timestamp = 17, PacketCount = 2,
           Packets = map PacketData example_docs\<rparr>
 \<and> map_outcome latest
     (initializeLatestData observed_Sscanf
        \<lparr>FTInfo = None, FTCreate = None,
          FTAggregate = Inr [example_row (StringValue ''17abc'')],
          FTSearch = (\<lambda>t. Inr example_docs)\<rparr>
        (start (\<lambda>_. []))) \<noteq> Return empty_latest
 \<and> map_outcome latest
     (initializeLatestData observed_Sscanf
        \<lparr>FTInfo = None, FTCreate = None,
          FTAggregate = Inr [example_row (StringValue ''5''), example_row (StringValue ''9'')],
          FTSearch = (\<lambda>t. if t = 9 then Inr example_docs else Inr [[''timestamp'' \<mapsto> ''5'']])\<rparr>
        (start (\<lambda>_. []))) =
   Return \<lparr>latestData.Timestamp = 5, PacketCount = 1,
           Packets = [PacketData [''timestamp'' \<mapsto> ''5'']]\<rparr>
 \<and> initializeLatestData observed_Sscanf
     \<lparr>FTInfo = None, FTCreate = None,
       FTAggregate = Inr [example_row OtherValue],
       FTSearch = (\<lambda>t. Inr example_docs)\<rparr>
     (start (\<lambda>_. [])) = Panic"
proof -
  let ?st = "start (\<lambda>_. [])"
  let ?r1 = "\<lparr>FTInfo = None, FTCreate = None,
       FTAggregate = Inr [example_row (StringValue ''17abc'')],
       FTSearch = (\<lambda>t. Inr example_docs)\<rparr>"
  let ?r2 = "\<lparr>FTInfo = None, FTCreate = None,
       FTAggregate = Inr [example_row (StringValue ''5''), example_row (StringValue ''9'')],
       FTSearch = (\<lambda>t. if t = 9 then Inr example_docs else Inr [[''timestamp'' \<mapsto> ''5'']])\<rparr>"
  let ?r3 = "\<lparr>FTInfo = None, FTCreate = None,
       FTAggregate = Inr [example_row OtherValue],
       FTSearch = (\<lambda>t. Inr example_docs)\<rparr>"
  have scan: "observed_Sscanf ''17abc'' = (1, None, 17)"
    by (simp add: observed_Sscanf_def)
  have "map_outcome latest (initializeLatestData observed_Sscanf ?r1 ?st) =
      Return \<lparr>latestData.Timestamp = 17, PacketCount = len example_docs,
              Packets = map PacketData example_docs\<rparr>"
    by (rule startup_trusts_scan_and_first_row
          [where rdb = ?r1 and row = "example_row (StringValue ''17abc'')" and rows = "[]"
             and s = "''17abc''" and Sscanf = observed_Sscanf and t = 17
             and docs = example_docs and st = ?st,
           THEN conjunct1, THEN mp])
       (simp add: example_row_def observed_Sscanf_def)
  then have c2: "map_outcome latest (initializeLatestData observed_Sscanf ?r1 ?st) =
      Return \<lparr>latestData.Timestamp = 17, PacketCount = 2,
              Packets = map PacketData example_docs\<rparr>"
    by (simp add: len_def example_docs_def)
  have c3: "map_outcome latest (initializeLatestData observed_Sscanf ?r1 ?st) \<noteq>
      Return empty_latest"
    unfolding c2 by (simp add: empty_latest_def)
  have c4: "map_outcome latest (initializeLatestData observed_Sscanf ?r2 ?st) =
      Return \<lparr>latestData.Timestamp = 5, PacketCount = 1,
              Packets = [PacketData [''timestamp'' \<mapsto> ''5'']]\<rparr>"
    using startup_trusts_scan_and_first_row
          [where rdb = ?r2 and row = "example_row (StringValue ''5'')"
             and rows = "[example_row (StringValue ''9'')]"
             and s = "''5''" and Sscanf = observed_Sscanf and t = 5
             and docs = "[[''timestamp'' \<mapsto> ''5'']]" and st = ?st, THEN conjunct1]
    by (simp add: example_row_def observed_Sscanf_def len_def)
  have c5: "initializeLatestData observed_Sscanf ?r3 ?st = Panic"
    by (rule startup_trusts_scan_and_first_row
          [where rdb = ?r3 and row = "example_row OtherValue" and rows = "[]"
             and Sscanf = observed_Sscanf and st = ?st,
           THEN conjunct2, THEN mp])
       (simp add: example_row_def)
  from scan c2 c3 c4 c5 show ?thesis
    by (intro conjI)
qed

end
